theory Spec2Isabelle
  imports Complex_Main "HOL-Library.Sublist"
begin

section \<open>Numbers and strings of the platform\<close>

text \<open>
  A JavaScript \<^verbatim>\<open>number\<close> is an IEEE double. The model keeps its special values apart
  and takes a finite value as the real number it denotes: rounding and the sign of zero
  are not represented.
\<close>

datatype number = NaN | PInf | NInf | Num real

text \<open>The decimal digits of an array length or index (\<^verbatim>\<open>`${n}`\<close> for a natural number).\<close>

definition digit_char :: "nat \<Rightarrow> char" where
  "digit_char d = ''0123456789'' ! d"

fun nat_to_string :: "nat \<Rightarrow> string" where
  "nat_to_string n =
     (if n < 10 then [digit_char n]
      else nat_to_string (n div 10) @ [digit_char (n mod 10)])"

declare nat_to_string.simps [simp del]

text \<open>
  \<^verbatim>\<open>Number.prototype.toFixed(f)\<close> of ECMAScript: a value that is not finite, or whose
  magnitude reaches \<open>10^21\<close>, is printed by \<^verbatim>\<open>Number::toString\<close>, which is the parameter
  \<open>ts\<close> (the shortest digits that read back as the same double have no counterpart over
  the reals). Below that the integer \<open>n\<close> nearest to \<open>x * 10^f\<close> (the larger one on a tie)
  is printed with \<open>f\<close> digits after the point.
\<close>

definition fixedDigits :: "nat \<Rightarrow> real \<Rightarrow> string" where
  "fixedDigits f a =
     (let n = nat \<lfloor>a * 10 ^ f + 1 / 2\<rfloor>;
          m = nat_to_string n;
          m' = (if length m \<le> f then replicate (f + 1 - length m) CHR ''0'' @ m else m)
      in if f = 0 then m
         else take (length m' - f) m' @ ''.'' @ drop (length m' - f) m')"

definition toFixed :: "(number \<Rightarrow> string) \<Rightarrow> nat \<Rightarrow> number \<Rightarrow> string" where
  "toFixed ts f x =
     (case x of
        Num r \<Rightarrow>
          (let s = (if r < 0 then ''-'' else '''');
               a = \<bar>r\<bar>
           in if a \<ge> 10 ^ 21 then s @ ts (Num a) else s @ fixedDigits f a)
      | _ \<Rightarrow> ts x)"

text \<open>\<^verbatim>\<open>Array.prototype.join\<close> on strings.\<close>

fun join :: "string \<Rightarrow> string list \<Rightarrow> string" where
  "join sep [] = ''''"
| "join sep [x] = x"
| "join sep (x # y # ys) = x @ sep @ join sep (y # ys)"

section \<open>Data model (gpx-parser)\<close>

record TrackPoint =
  lat :: number
  lon :: number
  ele :: "number option"
  time :: "string option"

record Waypoint =
  lat :: number
  lon :: number
  ele :: "number option"
  name :: "string option"

record Metadata =
  name :: "string option"
  desc :: "string option"
  author :: "string option"
  time :: "string option"

record GPXData =
  name :: string
  tracks :: "TrackPoint list list"
  waypoints :: "Waypoint list"
  metadata :: "Metadata option"

section \<open>Merge and deduplication (gpx-parser)\<close>

text \<open>\<^verbatim>\<open>x ?? ""\<close> on an optional string.\<close>

definition orEmpty :: "string option \<Rightarrow> string" where
  "orEmpty s = (case s of None \<Rightarrow> '''' | Some v \<Rightarrow> v)"

definition trackPointKey :: "(number \<Rightarrow> string) \<Rightarrow> TrackPoint \<Rightarrow> string" where
  "trackPointKey ts pt =
     toFixed ts 6 (TrackPoint.lat pt) @ '','' @ toFixed ts 6 (TrackPoint.lon pt) @ '','' @
     orEmpty (map_option (toFixed ts 1) (TrackPoint.ele pt)) @ '','' @
     orEmpty (TrackPoint.time pt)"

definition waypointKey :: "(number \<Rightarrow> string) \<Rightarrow> Waypoint \<Rightarrow> string" where
  "waypointKey ts wpt =
     toFixed ts 5 (Waypoint.lat wpt) @ '','' @ toFixed ts 5 (Waypoint.lon wpt)"

text \<open>
  \<^verbatim>\<open>xs.filter(x => { if (seen.has(key(x))) return false; seen.add(key(x)); return true })\<close>:
  the filter of both deduplication functions, with the set \<open>seen\<close> passed along.
\<close>

fun filterSeen :: "('a \<Rightarrow> string) \<Rightarrow> string set \<Rightarrow> 'a list \<Rightarrow> 'a list" where
  "filterSeen key seen [] = []"
| "filterSeen key seen (x # xs) =
     (if key x \<in> seen then filterSeen key seen xs
      else x # filterSeen key (insert (key x) seen) xs)"

definition deduplicateTrack :: "(number \<Rightarrow> string) \<Rightarrow> TrackPoint list \<Rightarrow> TrackPoint list" where
  "deduplicateTrack ts track = filterSeen (trackPointKey ts) {} track"

definition deduplicateWaypoints :: "(number \<Rightarrow> string) \<Rightarrow> Waypoint list \<Rightarrow> Waypoint list" where
  "deduplicateWaypoints ts wpts = filterSeen (waypointKey ts) {} wpts"

text \<open>
  \<open>mergeGPXData\<close>; \<open>now\<close> is the value of \<^verbatim>\<open>new Date().toISOString()\<close> at the call.
\<close>

definition mergeGPXData :: "(number \<Rightarrow> string) \<Rightarrow> string \<Rightarrow> GPXData list \<Rightarrow> GPXData" where
  "mergeGPXData ts now gpxFiles =
     (if length gpxFiles = 0 then
        \<lparr>GPXData.name = ''empty'', tracks = [], waypoints = [], metadata = None\<rparr>
      else if length gpxFiles = 1 then gpxFiles ! 0
      else
        let allPoints = concat (map (\<lambda>gpx. concat (tracks gpx)) gpxFiles);
            uniquePoints = deduplicateTrack ts allPoints;
            allWaypoints = concat (map waypoints gpxFiles);
            uniqueWaypoints = deduplicateWaypoints ts allWaypoints;
            names = join '' + '' (map GPXData.name gpxFiles)
        in \<lparr>GPXData.name = ''merged_'' @ nat_to_string (length gpxFiles) @ ''_files'',
            tracks = (if length uniquePoints > 0 then [uniquePoints] else []),
            waypoints = uniqueWaypoints,
            metadata = Some
              \<lparr>Metadata.name = Some (''Merged: '' @ names),
               desc = Some (''Merged GPX file from '' @ nat_to_string (length gpxFiles) @ '' files''),
               author = None,
               time = Some now\<rparr>\<rparr>)"

text \<open>
  The deduplication in the words of the specification: of the flattened sequence, keep
  the elements whose identity no earlier element has, in their order.
\<close>

definition firstOccurrences :: "('a \<Rightarrow> string) \<Rightarrow> 'a list \<Rightarrow> 'a list" where
  "firstOccurrences key xs =
     map (\<lambda>i. xs ! i)
       (filter (\<lambda>i. key (xs ! i) \<notin> set (map key (take i xs))) [0..<length xs])"

section \<open>The platform's string functions used by the parser\<close>

text \<open>
  \<^verbatim>\<open>String.prototype.replace(pattern, replacement)\<close> with a string pattern: the first
  occurrence of the pattern is replaced, and only that one.
\<close>

fun replaceFirst :: "string \<Rightarrow> string \<Rightarrow> string \<Rightarrow> string" where
  "replaceFirst pat rep [] = (if pat = [] then rep else [])"
| "replaceFirst pat rep (c # cs) =
     (if prefix pat (c # cs) then rep @ drop (length pat) (c # cs)
      else c # replaceFirst pat rep cs)"

text \<open>
  \<^verbatim>\<open>parseFloat\<close> of ECMAScript: leading white space is skipped, then the longest prefix
  that is a decimal literal (sign, \<^verbatim>\<open>Infinity\<close> or digits with an optional fraction and
  exponent) is read; when there is none the result is \<open>NaN\<close>. The value is the exact
  decimal value (the platform rounds it to a double). White space is the ASCII one.
\<close>

definition isWhite :: "char \<Rightarrow> bool" where
  "isWhite c = (c \<in> set [CHR '' '', CHR 0x09, CHR 0x0A, CHR 0x0B, CHR 0x0C, CHR 0x0D])"

definition isDigit :: "char \<Rightarrow> bool" where
  "isDigit c = (c \<in> set ''0123456789'')"

definition digitsVal :: "string \<Rightarrow> nat" where
  "digitsVal ds = foldl (\<lambda>a c. 10 * a + (of_char c - 48)) 0 ds"

definition splitSign :: "string \<Rightarrow> bool \<times> string" where
  "splitSign s =
     (case s of
        [] \<Rightarrow> (False, [])
      | c # cs \<Rightarrow>
          if c = CHR ''-'' then (True, cs) else if c = CHR ''+'' then (False, cs) else (False, s))"

definition exponentPart :: "string \<Rightarrow> int" where
  "exponentPart s =
     (case s of
        [] \<Rightarrow> 0
      | c # cs \<Rightarrow>
          if c = CHR ''e'' \<or> c = CHR ''E'' then
            (let (eneg, ds) = splitSign cs;
                 d = takeWhile isDigit ds
             in if d = [] then 0
                else if eneg then - int (digitsVal d) else int (digitsVal d))
          else 0)"

definition parseFloat :: "string \<Rightarrow> number" where
  "parseFloat inputString =
     (let (neg, r1) = splitSign (dropWhile isWhite inputString)
      in if prefix ''Infinity'' r1 then (if neg then NInf else PInf)
         else
           let ip = takeWhile isDigit r1;
               r2 = dropWhile isDigit r1;
               dot = (r2 \<noteq> [] \<and> hd r2 = CHR ''.'');
               fp = (if dot then takeWhile isDigit (tl r2) else []);
               r3 = (if dot then dropWhile isDigit (tl r2) else r2)
           in if ip = [] \<and> fp = [] then NaN
              else
                let e = exponentPart r3;
                    m = real (digitsVal ip) + real (digitsVal fp) / 10 ^ length fp;
                    v = (if e \<ge> 0 then m * 10 ^ nat e else m / 10 ^ nat (- e))
                in Num (if neg then - v else v))"

section \<open>The document tree\<close>

text \<open>
  The part of the DOM that \<open>parseGPX\<close> reads: elements with a qualified name, attributes
  and children, and text. A document is given by its root element.
\<close>

datatype node = Element string "(string \<times> string) list" "node list" | Text string

fun descendants :: "node \<Rightarrow> node list" where
  "descendants (Element q as cs) = concat (map (\<lambda>c. c # descendants c) cs)"
| "descendants (Text s) = []"

fun textContent :: "node \<Rightarrow> string" where
  "textContent (Element q as cs) = concat (map textContent cs)"
| "textContent (Text s) = s"

fun getAttribute :: "node \<Rightarrow> string \<Rightarrow> string option" where
  "getAttribute (Element q as cs) k = map_of as k"
| "getAttribute (Text s) k = None"

text \<open>The local name of a qualified name: what follows its prefix and colon, if any.\<close>

definition localName :: "string \<Rightarrow> string" where
  "localName q =
     (if CHR '':'' \<in> set q then tl (dropWhile (\<lambda>c. c \<noteq> CHR '':'') q) else q)"

text \<open>
  A type selector (\<^verbatim>\<open>querySelectorAll("trk")\<close>) matches an element by its local name;
  \<^verbatim>\<open>getElementsByTagName\<close> matches it by its qualified name. Both look at the
  descendants in document order; on the document the root element is one of them.
\<close>

fun matchesSelector :: "string \<Rightarrow> node \<Rightarrow> bool" where
  "matchesSelector sel (Element q as cs) = (localName q = sel)"
| "matchesSelector sel (Text s) = False"

fun hasTagName :: "string \<Rightarrow> node \<Rightarrow> bool" where
  "hasTagName t (Element q as cs) = (q = t)"
| "hasTagName t (Text s) = False"

definition querySelectorAll :: "node \<Rightarrow> string \<Rightarrow> node list" where
  "querySelectorAll el sel = filter (matchesSelector sel) (descendants el)"

definition querySelector :: "node \<Rightarrow> string \<Rightarrow> node option" where
  "querySelector el sel = find (matchesSelector sel) (descendants el)"

definition getElementsByTagName :: "node \<Rightarrow> string \<Rightarrow> node list" where
  "getElementsByTagName el t = filter (hasTagName t) (descendants el)"

definition docQuerySelectorAll :: "node \<Rightarrow> string \<Rightarrow> node list" where
  "docQuerySelectorAll doc sel = filter (matchesSelector sel) (doc # descendants doc)"

definition docQuerySelector :: "node \<Rightarrow> string \<Rightarrow> node option" where
  "docQuerySelector doc sel = find (matchesSelector sel) (doc # descendants doc)"

definition docGetElementsByTagName :: "node \<Rightarrow> string \<Rightarrow> node list" where
  "docGetElementsByTagName doc t = filter (hasTagName t) (doc # descendants doc)"

section \<open>The parser (gpx-parser)\<close>

text \<open>\<^verbatim>\<open>s || undefined\<close> and \<^verbatim>\<open>s || "0"\<close> on a string that may be null or undefined.\<close>

definition orUndefined :: "string option \<Rightarrow> string option" where
  "orUndefined s = (case s of None \<Rightarrow> None | Some v \<Rightarrow> if v = '''' then None else Some v)"

definition orElse :: "string option \<Rightarrow> string \<Rightarrow> string" where
  "orElse s d = (case s of None \<Rightarrow> d | Some v \<Rightarrow> if v = '''' then d else v)"

text \<open>\<^verbatim>\<open>ele ? parseFloat(ele) : undefined\<close>.\<close>

definition parseEle :: "string option \<Rightarrow> number option" where
  "parseEle s = (case s of None \<Rightarrow> None | Some v \<Rightarrow> if v = '''' then None else Some (parseFloat v))"

text \<open>The metadata block: an object whose fields are set only under a metadata element.\<close>

definition parseMetadata :: "node \<Rightarrow> Metadata" where
  "parseMetadata xmlDoc =
     (case docQuerySelector xmlDoc ''metadata'' of
        None \<Rightarrow> \<lparr>Metadata.name = None, desc = None, author = None, time = None\<rparr>
      | Some metadataEl \<Rightarrow>
          \<lparr>Metadata.name = orUndefined (map_option textContent (querySelector metadataEl ''name'')),
           desc = orUndefined (map_option textContent (querySelector metadataEl ''desc'')),
           author = None,
           time = orUndefined (map_option textContent (querySelector metadataEl ''time''))\<rparr>)"

text \<open>The callback on a \<^verbatim>\<open>trkpt\<close> element.\<close>

definition parseTrkpt :: "node \<Rightarrow> TrackPoint" where
  "parseTrkpt trkpt =
     \<lparr>TrackPoint.lat = parseFloat (orElse (getAttribute trkpt ''lat'') ''0''),
      lon = parseFloat (orElse (getAttribute trkpt ''lon'') ''0''),
      ele = parseEle (map_option textContent (querySelector trkpt ''ele'')),
      time = orUndefined (map_option textContent (querySelector trkpt ''time''))\<rparr>"

text \<open>The callback on a \<^verbatim>\<open>wpt\<close> element; \<open>firstOf xs\<close> is \<^verbatim>\<open>xs[0]\<close>.\<close>

definition firstOf :: "'a list \<Rightarrow> 'a option" where
  "firstOf xs = (case xs of [] \<Rightarrow> None | x # _ \<Rightarrow> Some x)"

definition parseWpt :: "node \<Rightarrow> Waypoint" where
  "parseWpt wpt =
     \<lparr>Waypoint.lat = parseFloat (orElse (getAttribute wpt ''lat'') ''0''),
      lon = parseFloat (orElse (getAttribute wpt ''lon'') ''0''),
      ele = parseEle (map_option textContent (firstOf (getElementsByTagName wpt ''ele''))),
      name = orUndefined (map_option textContent (firstOf (getElementsByTagName wpt ''name'')))\<rparr>"

text \<open>The tracks: one per track segment that has a point, in document order.\<close>

definition parseTracks :: "node \<Rightarrow> TrackPoint list list" where
  "parseTracks xmlDoc =
     filter (\<lambda>points. length points > 0)
       (concat (map (\<lambda>trk. map (\<lambda>trkseg. map parseTrkpt (querySelectorAll trkseg ''trkpt''))
                               (querySelectorAll trk ''trkseg''))
                    (docQuerySelectorAll xmlDoc ''trk'')))"

text \<open>\<open>parseGPX\<close> from the parsed document on.\<close>

definition parseDocument :: "node \<Rightarrow> string \<Rightarrow> GPXData" where
  "parseDocument xmlDoc fileName =
     \<lparr>GPXData.name =
        (case Metadata.name (parseMetadata xmlDoc) of
           Some n \<Rightarrow> n
         | None \<Rightarrow> replaceFirst ''.gpx'' '''' fileName),
      tracks = parseTracks xmlDoc,
      waypoints = map parseWpt (docGetElementsByTagName xmlDoc ''wpt''),
      metadata = Some (parseMetadata xmlDoc)\<rparr>"

text \<open>
  The name that the specification gives a file without a metadata name: the fallback
  name without a trailing \<^verbatim>\<open>.gpx\<close> in any letter case.
\<close>

definition lowerChar :: "char \<Rightarrow> char" where
  "lowerChar c =
     (case map_of (zip ''ABCDEFGHIJKLMNOPQRSTUVWXYZ'' ''abcdefghijklmnopqrstuvwxyz'') c of
        None \<Rightarrow> c
      | Some l \<Rightarrow> l)"

definition specFallbackName :: "string \<Rightarrow> string" where
  "specFallbackName fileName =
     (if suffix ''.gpx'' (map lowerChar fileName) then take (length fileName - 4) fileName
      else fileName)"

section \<open>The platform's XML parser\<close>

text \<open>
  \<^verbatim>\<open>new DOMParser().parseFromString(text, "text/xml")\<close> never throws: for a text that is
  not well-formed it returns a document whose root is a \<^verbatim>\<open>parsererror\<close> element. The
  model reads the documents made of an optional XML declaration (version 1.0, encoding
  UTF-8), elements with quoted attributes, and character data. Comments, CDATA sections,
  references (\<^verbatim>\<open>&amp;\<close>), processing instructions, document types, and prefixed names
  other than \<^verbatim>\<open>xmlns:\<close> attributes are not modelled: the model takes a text that has one
  for not well-formed, as it does a text that breaks the rules of XML on the rest.
\<close>

definition parsererror :: node where
  "parsererror = Element ''parsererror'' [] []"

definition isSpace :: "char \<Rightarrow> bool" where
  "isSpace c = (c \<in> set [CHR '' '', CHR 0x09, CHR 0x0A, CHR 0x0D])"

definition isLetter :: "char \<Rightarrow> bool" where
  "isLetter c = (c \<in> set ''abcdefghijklmnopqrstuvwxyzABCDEFGHIJKLMNOPQRSTUVWXYZ'')"

definition nameStart :: "char \<Rightarrow> bool" where
  "nameStart c = (isLetter c \<or> c = CHR ''_'')"

definition nameChar :: "char \<Rightarrow> bool" where
  "nameChar c = (isLetter c \<or> isDigit c \<or> c \<in> set ''_-.'')"

definition validName :: "string \<Rightarrow> bool" where
  "validName n = (n \<noteq> [] \<and> nameStart (hd n) \<and> list_all nameChar n)"

definition attrNameChar :: "char \<Rightarrow> bool" where
  "attrNameChar c = (nameChar c \<or> c = CHR '':'')"

definition validAttrName :: "string \<Rightarrow> bool" where
  "validAttrName k =
     (validName k \<or> (prefix ''xmlns:'' k \<and> validName (drop 6 k)))"

text \<open>A character that XML allows, and the line ends as the parser passes them on.\<close>

definition xmlChar :: "char \<Rightarrow> bool" where
  "xmlChar c = (c \<in> set [CHR 0x09, CHR 0x0A, CHR 0x0D] \<or> 32 \<le> (of_char c :: nat))"

fun normalizeEol :: "string \<Rightarrow> string" where
  "normalizeEol [] = []"
| "normalizeEol [c] = (if c = CHR 0x0D then [CHR 0x0A] else [c])"
| "normalizeEol (c # d # cs) =
     (if c = CHR 0x0D then
        (if d = CHR 0x0A then CHR 0x0A # normalizeEol cs else CHR 0x0A # normalizeEol (d # cs))
      else c # normalizeEol (d # cs))"

text \<open>
  Scanning: the text is cut at \<^verbatim>\<open><\<close> and \<^verbatim>\<open>>\<close> into character data and the bodies of tags
  (\<open>acc\<close> holds the characters of the current piece, last one first).
\<close>

datatype raw = RawText string | RawTag string

definition textOf :: "string \<Rightarrow> raw list" where
  "textOf acc = (if acc = [] then [] else [RawText (rev acc)])"

fun scan :: "bool \<Rightarrow> string \<Rightarrow> string \<Rightarrow> raw list option" where
  "scan inTag acc [] = (if inTag then None else Some (textOf acc))"
| "scan inTag acc (c # cs) =
     (if inTag then
        (if c = CHR ''>'' then map_option ((#) (RawTag (rev acc))) (scan False [] cs)
         else if c = CHR ''<'' then None
         else scan True (c # acc) cs)
      else
        (if c = CHR ''<'' then map_option ((@) (textOf acc)) (scan True [] cs)
         else scan False (c # acc) cs))"

text \<open>
  The attributes of a tag: each after white space, as \<^verbatim>\<open>name="value"\<close> or with \<^verbatim>\<open>'\<close>;
  \<open>nextAttr\<close> reads one and gives the rest of the tag.
\<close>

definition attrSpace :: "char \<Rightarrow> char" where
  "attrSpace c = (if c = CHR 0x09 \<or> c = CHR 0x0A then CHR '' '' else c)"

definition nextAttr :: "string \<Rightarrow> ((string \<times> string) \<times> string) option option" where
  "nextAttr s =
     (let s1 = dropWhile isSpace s
      in if s1 = [] then Some None
         else if length s1 = length s then None
         else
           let k = takeWhile attrNameChar s1;
               r1 = dropWhile isSpace (dropWhile attrNameChar s1)
           in if \<not> validAttrName k \<or> r1 = [] \<or> hd r1 \<noteq> CHR ''='' then None
              else
                let r2 = dropWhile isSpace (tl r1)
                in if r2 = [] \<or> (hd r2 \<noteq> CHR 0x22 \<and> hd r2 \<noteq> CHR 0x27) then None
                   else
                     let v = takeWhile (\<lambda>c. c \<noteq> hd r2) (tl r2);
                         r3 = dropWhile (\<lambda>c. c \<noteq> hd r2) (tl r2)
                     in if r3 = [] \<or> CHR ''<'' \<in> set v \<or> CHR ''&'' \<in> set v then None
                        else Some (Some ((k, map attrSpace v), tl r3)))"

lemma nextAttr_shorter:
  assumes "nextAttr s = Some (Some (kv, rest))"
  shows "length rest < length s"
proof -
  define s1 where "s1 = dropWhile isSpace s"
  define r1 where "r1 = dropWhile isSpace (dropWhile attrNameChar s1)"
  define r2 where "r2 = dropWhile isSpace (tl r1)"
  define r3 where "r3 = dropWhile (\<lambda>c. c \<noteq> hd r2) (tl r2)"
  from assms have rest: "rest = tl r3" and ne: "r3 \<noteq> []"
    unfolding nextAttr_def Let_def s1_def [symmetric] r1_def [symmetric] r2_def [symmetric]
      r3_def [symmetric]
    by (auto split: if_splits)
  have "length r1 \<le> length s"
    unfolding r1_def s1_def
    by (rule le_trans [OF length_dropWhile_le], rule le_trans [OF length_dropWhile_le])
      (rule length_dropWhile_le)
  moreover have "length r2 \<le> length r1"
    unfolding r2_def by (rule le_trans [OF length_dropWhile_le]) simp
  moreover have "length r3 \<le> length r2"
    unfolding r3_def by (rule le_trans [OF length_dropWhile_le]) simp
  moreover from ne have "length (tl r3) < length r3" by (cases r3) auto
  ultimately show ?thesis unfolding rest by simp
qed

function parseAttrs :: "string \<Rightarrow> (string \<times> string) list option" where
  "parseAttrs s =
     (case nextAttr s of
        None \<Rightarrow> None
      | Some None \<Rightarrow> Some []
      | Some (Some (kv, rest)) \<Rightarrow> map_option ((#) kv) (parseAttrs rest))"
  by pat_completeness auto
termination
proof (relation "measure length")
  show "wf (measure length)" by simp
next
  fix s :: string and x2 x2a kv rest
  assume "nextAttr s = Some x2" "x2 = Some x2a" "(kv, rest) = x2a"
  then have "nextAttr s = Some (Some (kv, rest))" by simp
  then show "(rest, s) \<in> measure length" by (simp add: nextAttr_shorter)
qed

declare parseAttrs.simps [simp del]

text \<open>
  A tag body is an end tag, a start tag or an empty-element tag; the last one counts
  as a start tag with its end tag.
\<close>

datatype token = Open string "(string \<times> string) list" | Close string | Chars string

definition interpretTag :: "string \<Rightarrow> token list option" where
  "interpretTag body =
     (if body = [] then None
      else if hd body = CHR ''/'' then
        (let n = takeWhile nameChar (tl body);
             r = dropWhile nameChar (tl body)
         in if validName n \<and> list_all isSpace r then Some [Close n] else None)
      else
        let selfClosing = (last body = CHR ''/'');
            content = (if selfClosing then butlast body else body);
            n = takeWhile nameChar content
        in if \<not> validName n then None
           else
             case parseAttrs (dropWhile nameChar content) of
               None \<Rightarrow> None
             | Some as \<Rightarrow>
                 if distinct (map fst as)
                 then Some (Open n as # (if selfClosing then [Close n] else []))
                 else None)"

definition interpretText :: "string \<Rightarrow> token list option" where
  "interpretText t =
     (if CHR ''&'' \<in> set t \<or> sublist '']]>'' t then None else Some [Chars t])"

fun interpretAll :: "raw list \<Rightarrow> token list option" where
  "interpretAll [] = Some []"
| "interpretAll (r # rs) =
     (case (case r of RawText t \<Rightarrow> interpretText t | RawTag b \<Rightarrow> interpretTag b) of
        None \<Rightarrow> None
      | Some ts \<Rightarrow> map_option ((@) ts) (interpretAll rs))"

text \<open>
  Building the tree: \<open>stack\<close> holds the open elements, innermost first, each with its
  children so far, last one first; \<open>finished\<close> is the root element once it is closed.
\<close>

fun build ::
    "(string \<times> (string \<times> string) list \<times> node list) list \<Rightarrow> node option \<Rightarrow> token list \<Rightarrow> node option" where
  "build stack finished [] = (if stack = [] then finished else None)"
| "build stack finished (Chars t # ts) =
     (case stack of
        [] \<Rightarrow> if list_all isSpace t then build [] finished ts else None
      | (n, as, ch) # fs \<Rightarrow> build ((n, as, Text t # ch) # fs) finished ts)"
| "build stack finished (Open n as # ts) =
     (if stack = [] \<and> finished \<noteq> None then None else build ((n, as, []) # stack) finished ts)"
| "build stack finished (Close n # ts) =
     (case stack of
        [] \<Rightarrow> None
      | (m, as, ch) # fs \<Rightarrow>
          if m \<noteq> n then None
          else
            (case fs of
               [] \<Rightarrow> build [] (Some (Element m as (rev ch))) ts
             | (m', as', ch') # fs' \<Rightarrow> build ((m', as', Element m as (rev ch) # ch') # fs') finished ts))"

text \<open>The XML declaration, which may only open the text.\<close>

definition afterDeclaration :: "string \<Rightarrow> string option" where
  "afterDeclaration s =
     (if prefix ''<?xml'' s then
        (let body = takeWhile (\<lambda>c. c \<noteq> CHR ''?'') (drop 5 s);
             rest = dropWhile (\<lambda>c. c \<noteq> CHR ''?'') (drop 5 s)
         in if \<not> prefix ''?>'' rest then None
            else
              case parseAttrs body of
                None \<Rightarrow> None
              | Some as \<Rightarrow>
                  if as = [(''version'', ''1.0'')] \<or>
                     as = [(''version'', ''1.0''), (''encoding'', ''UTF-8'')] \<or>
                     as = [(''version'', ''1.0''), (''encoding'', ''utf-8'')]
                  then Some (drop 2 rest)
                  else None)
      else Some s)"

definition parseXml :: "string \<Rightarrow> node option" where
  "parseXml text =
     (if \<not> list_all xmlChar text then None
      else
        case afterDeclaration (normalizeEol text) of
          None \<Rightarrow> None
        | Some body \<Rightarrow>
            (case scan False [] body of
               None \<Rightarrow> None
             | Some raws \<Rightarrow>
                 (case interpretAll raws of
                    None \<Rightarrow> None
                  | Some toks \<Rightarrow> build [] None toks)))"

definition parseFromString :: "string \<Rightarrow> node" where
  "parseFromString text = (case parseXml text of None \<Rightarrow> parsererror | Some doc \<Rightarrow> doc)"

text \<open>
  \<open>parseGPX\<close>. The function has no statement that throws and the platform's parser
  reports an error in the document it returns, so every path ends in a result.
\<close>

datatype error = ParseError

definition parseGPX :: "string \<Rightarrow> string \<Rightarrow> error + GPXData" where
  "parseGPX xmlString fileName = Inr (parseDocument (parseFromString xmlString) fileName)"


section \<open>The serializer (gpx-parser)\<close>

text \<open>
  \<open>gpxDataToXML\<close>: the template literals, with \<open>nl\<close> for their line breaks, \<open>ts\<close> for
  the conversion of a number to text and \<open>now\<close> for \<^verbatim>\<open>new Date().toISOString()\<close>.
\<close>

definition nl :: string where
  "nl = [CHR 0x0A]"

definition wptXML :: "(number \<Rightarrow> string) \<Rightarrow> string \<Rightarrow> Waypoint \<Rightarrow> string" where
  \<open>wptXML ts xml wpt =
     (let xml1 = xml @ nl @ ''  <wpt lat="'' @ ts (Waypoint.lat wpt) @ ''" lon="'' @
                   ts (Waypoint.lon wpt) @ ''">'';
          xml2 = (case Waypoint.ele wpt of
                    None \<Rightarrow> xml1
                  | Some e \<Rightarrow> xml1 @ nl @ ''    <ele>'' @ ts e @ ''</ele>'')
      in xml2 @ nl @ ''  </wpt>'')\<close>

definition trkptXML :: "(number \<Rightarrow> string) \<Rightarrow> string \<Rightarrow> TrackPoint \<Rightarrow> string" where
  \<open>trkptXML ts xml pt =
     (let xml1 = xml @ nl @ ''      <trkpt lat="'' @ ts (TrackPoint.lat pt) @ ''" lon="'' @
                   ts (TrackPoint.lon pt) @ ''">'';
          xml2 = (case TrackPoint.ele pt of
                    None \<Rightarrow> xml1
                  | Some e \<Rightarrow> xml1 @ nl @ ''        <ele>'' @ ts e @ ''</ele>'');
          xml3 = (case orUndefined (TrackPoint.time pt) of
                    None \<Rightarrow> xml2
                  | Some t \<Rightarrow> xml2 @ nl @ ''        <time>'' @ t @ ''</time>'')
      in xml3 @ nl @ ''      </trkpt>'')\<close>

definition trkXML :: "(number \<Rightarrow> string) \<Rightarrow> string \<Rightarrow> nat \<times> TrackPoint list \<Rightarrow> string" where
  \<open>trkXML ts xml = (\<lambda>(index, track).
     (let xml1 = xml @ nl @ ''  <trk>'' @ nl @ ''    <name>Track '' @ nat_to_string (index + 1) @
                   ''</name>'' @ nl @ ''    <trkseg>'';
          xml2 = foldl (trkptXML ts) xml1 track
      in xml2 @ nl @ ''    </trkseg>'' @ nl @ ''  </trk>''))\<close>

definition gpxDataToXML :: "(number \<Rightarrow> string) \<Rightarrow> string \<Rightarrow> GPXData \<Rightarrow> string" where
  \<open>gpxDataToXML ts now gpxData =
     (let xml0 = ''<?xml version="1.0" encoding="UTF-8"?>'' @ nl @
                 ''<gpx version="1.1" creator="GPX Merger" xmlns="http://www.topografix.com/GPX/1/1">'' @ nl @
                 ''  <metadata>'' @ nl @
                 ''    <name>'' @
                   orElse (Option.bind (metadata gpxData) Metadata.name) (GPXData.name gpxData) @
                 ''</name>'' @ nl @
                 ''    <desc>'' @ orElse (Option.bind (metadata gpxData) Metadata.desc) '''' @
                 ''</desc>'' @ nl @
                 ''    <time>'' @ orElse (Option.bind (metadata gpxData) Metadata.time) now @
                 ''</time>'' @ nl @
                 ''  </metadata>'';
          xml1 = foldl (wptXML ts) xml0 (waypoints gpxData);
          xml2 = foldl (trkXML ts) xml1 (enumerate 0 (tracks gpxData))
      in xml2 @ nl @ ''</gpx>'')\<close>

section \<open>The document that the serializer writes\<close>

text \<open>
  The text of a document tree, written the way the serializer writes its elements: a
  start tag with the attributes in double quotes, the children, the end tag.
\<close>

fun renderAttrs :: "(string \<times> string) list \<Rightarrow> string" where
  \<open>renderAttrs [] = []\<close>
| \<open>renderAttrs ((k, v) # as) = '' '' @ k @ ''="'' @ v @ ''"'' @ renderAttrs as\<close>

fun render :: "node \<Rightarrow> string" where
  "render (Text t) = t"
| "render (Element n as cs) =
     ''<'' @ n @ renderAttrs as @ ''>'' @ concat (map render cs) @ ''</'' @ n @ ''>''"

text \<open>The pieces and the tokens of that text.\<close>

fun rawsOf :: "node \<Rightarrow> raw list" where
  "rawsOf (Text t) = [RawText t]"
| "rawsOf (Element n as cs) =
     RawTag (n @ renderAttrs as) # concat (map rawsOf cs) @ [RawTag (''/'' @ n)]"

fun tokensOf :: "node \<Rightarrow> token list" where
  "tokensOf (Text t) = [Chars t]"
| "tokensOf (Element n as cs) = Open n as # concat (map tokensOf cs) @ [Close n]"

text \<open>
  Text without markup characters, and trees whose text reads back as themselves: valid
  names, attributes of distinct names, no empty text and no two texts in a row.
\<close>

definition plainChar :: "char \<Rightarrow> bool" where
  "plainChar c = (32 \<le> (of_char c :: nat) \<and> c \<notin> set ''<>&'')"

definition plainText :: "string \<Rightarrow> bool" where
  "plainText t = list_all (\<lambda>c. plainChar c \<or> c = CHR 0x09 \<or> c = CHR 0x0A) t"

definition plainAttr :: "string \<Rightarrow> bool" where
  "plainAttr v = list_all (\<lambda>c. plainChar c \<and> c \<noteq> CHR 0x22) v"

fun isText :: "node \<Rightarrow> bool" where
  "isText (Text t) = True"
| "isText (Element n as cs) = False"

fun noTextPairs :: "node list \<Rightarrow> bool" where
  "noTextPairs (x # y # cs) = (\<not> (isText x \<and> isText y) \<and> noTextPairs (y # cs))"
| "noTextPairs cs = True"

fun wfNode :: "node \<Rightarrow> bool" where
  "wfNode (Text t) = (t \<noteq> [] \<and> plainText t)"
| "wfNode (Element n as cs) =
     (validName n \<and> distinct (map fst as) \<and>
      list_all (\<lambda>(k, v). validAttrName k \<and> plainAttr v) as \<and>
      list_all wfNode cs \<and> noTextPairs cs)"

section \<open>The tree of a serialized file\<close>

text \<open>
  The document that the text of \<open>gpxDataToXML\<close> denotes when the points carry latitude
  and longitude only: the elements in the order of the templates, with the line breaks
  and indentation between them as text.
\<close>

definition xmlDeclaration :: string where
  \<open>xmlDeclaration = ''<?xml version="1.0" encoding="UTF-8"?>''\<close>

definition ind2 :: string where
  "ind2 = nl @ ''  ''"

definition ind4 :: string where
  "ind4 = nl @ ''    ''"

definition ind6 :: string where
  "ind6 = nl @ ''      ''"

definition textNodes :: "string \<Rightarrow> node list" where
  "textNodes s = (if s = [] then [] else [Text s])"

definition coordAttrs :: "(number \<Rightarrow> string) \<Rightarrow> number \<Rightarrow> number \<Rightarrow> (string \<times> string) list" where
  "coordAttrs ts la lo = [(''lat'', ts la), (''lon'', ts lo)]"

definition wptNode :: "(number \<Rightarrow> string) \<Rightarrow> Waypoint \<Rightarrow> node" where
  "wptNode ts w = Element ''wpt'' (coordAttrs ts (Waypoint.lat w) (Waypoint.lon w)) [Text ind2]"

definition trkptNode :: "(number \<Rightarrow> string) \<Rightarrow> TrackPoint \<Rightarrow> node" where
  "trkptNode ts p =
     Element ''trkpt'' (coordAttrs ts (TrackPoint.lat p) (TrackPoint.lon p)) [Text ind6]"

definition trksegNode :: "(number \<Rightarrow> string) \<Rightarrow> TrackPoint list \<Rightarrow> node" where
  "trksegNode ts track =
     Element ''trkseg'' [] (concat (map (\<lambda>p. [Text ind6, trkptNode ts p]) track) @ [Text ind4])"

definition trkNode :: "(number \<Rightarrow> string) \<Rightarrow> nat \<times> TrackPoint list \<Rightarrow> node" where
  "trkNode ts = (\<lambda>(index, track).
     Element ''trk'' []
       [Text ind4, Element ''name'' [] [Text (''Track '' @ nat_to_string (index + 1))],
        Text ind4, trksegNode ts track, Text ind2])"

definition metadataNode :: "string \<Rightarrow> string \<Rightarrow> string \<Rightarrow> node" where
  "metadataNode n d t =
     Element ''metadata'' []
       [Text ind4, Element ''name'' [] (textNodes n),
        Text ind4, Element ''desc'' [] (textNodes d),
        Text ind4, Element ''time'' [] (textNodes t), Text ind2]"

text \<open>The three texts of the metadata block.\<close>

definition metadataName :: "GPXData \<Rightarrow> string" where
  "metadataName gpxData =
     orElse (Option.bind (metadata gpxData) Metadata.name) (GPXData.name gpxData)"

definition metadataDesc :: "GPXData \<Rightarrow> string" where
  "metadataDesc gpxData = orElse (Option.bind (metadata gpxData) Metadata.desc) ''''"

definition metadataTime :: "string \<Rightarrow> GPXData \<Rightarrow> string" where
  "metadataTime now gpxData = orElse (Option.bind (metadata gpxData) Metadata.time) now"

definition gpxTree :: "(number \<Rightarrow> string) \<Rightarrow> string \<Rightarrow> GPXData \<Rightarrow> node" where
  "gpxTree ts now gpxData =
     Element ''gpx''
       [(''version'', ''1.1''), (''creator'', ''GPX Merger''),
        (''xmlns'', ''http://www.topografix.com/GPX/1/1'')]
       ([Text ind2,
         metadataNode (metadataName gpxData) (metadataDesc gpxData) (metadataTime now gpxData)] @
        concat (map (\<lambda>w. [Text ind2, wptNode ts w]) (waypoints gpxData)) @
        concat (map (\<lambda>t. [Text ind2, trkNode ts t]) (enumerate 0 (tracks gpxData))) @
        [Text nl])"

text \<open>
  The files of the round trip: points with latitude and longitude only, coordinates
  whose text reads back as the same number, and metadata texts without markup.
\<close>

definition latLonOnly :: "GPXData \<Rightarrow> bool" where
  "latLonOnly gpxData =
     ((\<forall>track \<in> set (tracks gpxData). \<forall>p \<in> set track.
         TrackPoint.ele p = None \<and> TrackPoint.time p = None) \<and>
      (\<forall>w \<in> set (waypoints gpxData). Waypoint.ele w = None \<and> Waypoint.name w = None))"

definition printable :: "(number \<Rightarrow> string) \<Rightarrow> number \<Rightarrow> bool" where
  "printable ts x = (ts x \<noteq> [] \<and> plainAttr (ts x) \<and> parseFloat (ts x) = x)"

definition coordinates :: "GPXData \<Rightarrow> number list" where
  "coordinates gpxData =
     concat (map (\<lambda>p. [TrackPoint.lat p, TrackPoint.lon p]) (concat (tracks gpxData))) @
     concat (map (\<lambda>w. [Waypoint.lat w, Waypoint.lon w]) (waypoints gpxData))"

section \<open>Arithmetic on numbers\<close>

text \<open>
  The operations of IEEE arithmetic and of \<^verbatim>\<open>Math\<close> that the geometry and the chart use:
  on finite values they are the operations on reals, and \<open>NaN\<close> and the infinities
  follow the IEEE rules.
\<close>

fun nneg :: "number \<Rightarrow> number" where
  "nneg NaN = NaN"
| "nneg PInf = NInf"
| "nneg NInf = PInf"
| "nneg (Num a) = Num (- a)"

fun nadd :: "number \<Rightarrow> number \<Rightarrow> number" where
  "nadd NaN _ = NaN"
| "nadd _ NaN = NaN"
| "nadd (Num a) (Num b) = Num (a + b)"
| "nadd PInf NInf = NaN"
| "nadd NInf PInf = NaN"
| "nadd PInf _ = PInf"
| "nadd _ PInf = PInf"
| "nadd NInf _ = NInf"
| "nadd _ NInf = NInf"

definition nsub :: "number \<Rightarrow> number \<Rightarrow> number" where
  "nsub a b = nadd a (nneg b)"

text \<open>An infinity of the sign of a finite factor; the product with zero is not a number.\<close>

definition signedInf :: "bool \<Rightarrow> real \<Rightarrow> number" where
  "signedInf positive r =
     (if r = 0 then NaN else if (0 < r) = positive then PInf else NInf)"

fun nmul :: "number \<Rightarrow> number \<Rightarrow> number" where
  "nmul NaN _ = NaN"
| "nmul _ NaN = NaN"
| "nmul (Num a) (Num b) = Num (a * b)"
| "nmul PInf PInf = PInf"
| "nmul NInf NInf = PInf"
| "nmul PInf NInf = NInf"
| "nmul NInf PInf = NInf"
| "nmul PInf (Num b) = signedInf True b"
| "nmul NInf (Num b) = signedInf False b"
| "nmul (Num a) PInf = signedInf True a"
| "nmul (Num a) NInf = signedInf False a"

text \<open>Division, which the code uses with the finite divisors 2 and 180 only.\<close>

fun ndiv :: "number \<Rightarrow> number \<Rightarrow> number" where
  "ndiv NaN _ = NaN"
| "ndiv _ NaN = NaN"
| "ndiv (Num a) (Num b) = (if b = 0 then signedInf True a else Num (a / b))"
| "ndiv (Num a) _ = Num 0"
| "ndiv PInf (Num b) = (if 0 \<le> b then PInf else NInf)"
| "ndiv NInf (Num b) = (if 0 \<le> b then NInf else PInf)"
| "ndiv _ _ = NaN"

fun nsin :: "number \<Rightarrow> number" where
  "nsin (Num a) = Num (sin a)"
| "nsin _ = NaN"

fun ncos :: "number \<Rightarrow> number" where
  "ncos (Num a) = Num (cos a)"
| "ncos _ = NaN"

fun nsqrt :: "number \<Rightarrow> number" where
  "nsqrt (Num a) = (if a < 0 then NaN else Num (sqrt a))"
| "nsqrt PInf = PInf"
| "nsqrt _ = NaN"

definition atan2 :: "real \<Rightarrow> real \<Rightarrow> real" where
  "atan2 y x =
     (if 0 < x then arctan (y / x)
      else if x < 0 then (if 0 \<le> y then arctan (y / x) + pi else arctan (y / x) - pi)
      else if 0 < y then pi / 2
      else if y < 0 then - (pi / 2)
      else 0)"

fun natan2 :: "number \<Rightarrow> number \<Rightarrow> number" where
  "natan2 NaN _ = NaN"
| "natan2 _ NaN = NaN"
| "natan2 (Num y) (Num x) = Num (atan2 y x)"
| "natan2 (Num y) PInf = Num 0"
| "natan2 (Num y) NInf = Num (if 0 \<le> y then pi else - pi)"
| "natan2 PInf (Num x) = Num (pi / 2)"
| "natan2 NInf (Num x) = Num (- (pi / 2))"
| "natan2 PInf PInf = Num (pi / 4)"
| "natan2 PInf NInf = Num (3 * pi / 4)"
| "natan2 NInf PInf = Num (- (pi / 4))"
| "natan2 NInf NInf = Num (- (3 * pi / 4))"










section \<open>Geometry (gpx-parser)\<close>





section \<open>The elevation chart (ElevationChart)\<close>

record ElevationPoint =
  distance :: number
  elevation :: number
  fileIndex :: nat

record WaypointMarker =
  distance :: number
  elevation :: number
  name :: "string option"

text \<open>An element of the array \<^verbatim>\<open>trackPoints\<close>.\<close>

record ChartTrackPoint =
  lat :: number
  lon :: number
  distance :: number
  elevation :: number

text \<open>The two key functions of the chart's own.\<close>

definition chartTrackPointKey ::
    "(number \<Rightarrow> string) \<Rightarrow> number \<Rightarrow> number \<Rightarrow> number option \<Rightarrow> string" where
  "chartTrackPointKey ts la lo el =
     toFixed ts 6 la @ '','' @ toFixed ts 6 lo @ '','' @ orEmpty (map_option (toFixed ts 1) el)"


text \<open>
  The first pass. Its variables are the fields of the state; \<open>segment\<close> is the distance
  that the loop body adds for a point after the previous one.
\<close>

record FirstPass =
  seenTrackPoints :: "string set"
  cumulativeDistance :: number
  prevPoint :: "(number \<times> number) option"
  trackPoints :: "ChartTrackPoint list"
  data :: "ElevationPoint list"

definition segment :: "number \<times> number \<Rightarrow> TrackPoint \<Rightarrow> number" where
  "segment prev point =
     (let dLat = ndiv (nmul (nsub (TrackPoint.lat point) (fst prev)) (Num pi)) (Num 180);
          dLon = ndiv (nmul (nsub (TrackPoint.lon point) (snd prev)) (Num pi)) (Num 180);
          a = nadd (nmul (nsin (ndiv dLat (Num 2))) (nsin (ndiv dLat (Num 2))))
                (nmul (nmul (nmul (ncos (ndiv (nmul (fst prev) (Num pi)) (Num 180)))
                                  (ncos (ndiv (nmul (TrackPoint.lat point) (Num pi)) (Num 180))))
                            (nsin (ndiv dLon (Num 2))))
                      (nsin (ndiv dLon (Num 2))));
          c = nmul (Num 2) (natan2 (nsqrt a) (nsqrt (nsub (Num 1) a)))
      in nmul (Num 6371) c)"

definition visitPoint :: "(number \<Rightarrow> string) \<Rightarrow> nat \<Rightarrow> FirstPass \<Rightarrow> TrackPoint \<Rightarrow> FirstPass" where
  "visitPoint ts i st point =
     (case TrackPoint.ele point of
        None \<Rightarrow> st
      | Some e \<Rightarrow>
          let key = chartTrackPointKey ts (TrackPoint.lat point) (TrackPoint.lon point) (Some e)
          in if key \<in> seenTrackPoints st then st
             else
               let cd = (case prevPoint st of
                           None \<Rightarrow> cumulativeDistance st
                         | Some prev \<Rightarrow> nadd (cumulativeDistance st) (segment prev point))
               in \<lparr>seenTrackPoints = insert key (seenTrackPoints st),
                   cumulativeDistance = cd,
                   prevPoint = Some (TrackPoint.lat point, TrackPoint.lon point),
                   trackPoints = trackPoints st @
                     [\<lparr>ChartTrackPoint.lat = TrackPoint.lat point, lon = TrackPoint.lon point,
                       distance = cd, elevation = e\<rparr>],
                   data = data st @
                     [\<lparr>ElevationPoint.distance = cd, elevation = e, fileIndex = i\<rparr>]\<rparr>)"

definition firstPassStart :: FirstPass where
  "firstPassStart =
     \<lparr>seenTrackPoints = {}, cumulativeDistance = Num 0, prevPoint = None,
      trackPoints = [], data = []\<rparr>"

definition firstPass :: "(number \<Rightarrow> string) \<Rightarrow> GPXData list \<Rightarrow> FirstPass" where
  "firstPass ts gpxFiles =
     foldl (\<lambda>st (i, gpxFile).
              foldl (\<lambda>st track. foldl (visitPoint ts i) st track) st (tracks gpxFile))
       firstPassStart (enumerate 0 gpxFiles)"










section \<open>The sample list in the words of the specification\<close>

text \<open>
  All track points of all files with the index of their file, in file, track and point
  order; of these the ones that have an elevation, with it; and the samples along such a
  sequence, the distance running on from one point to the next.
\<close>

definition indexedPoints :: "GPXData list \<Rightarrow> (nat \<times> TrackPoint) list" where
  "indexedPoints gpxFiles =
     concat (map (\<lambda>(i, gpxFile). map (Pair i) (concat (tracks gpxFile))) (enumerate 0 gpxFiles))"

definition elevationBearing :: "(nat \<times> TrackPoint) list \<Rightarrow> (nat \<times> TrackPoint \<times> number) list" where
  "elevationBearing ps =
     concat (map (\<lambda>(i, p). case TrackPoint.ele p of None \<Rightarrow> [] | Some e \<Rightarrow> [(i, p, e)]) ps)"

fun samplesAlong ::
    "number \<Rightarrow> (number \<times> number) option \<Rightarrow> (nat \<times> TrackPoint \<times> number) list \<Rightarrow> ElevationPoint list" where
  "samplesAlong cd prev [] = []"
| "samplesAlong cd prev ((i, p, e) # rest) =
     (let cd' = (case prev of None \<Rightarrow> cd | Some q \<Rightarrow> nadd cd (segment q p))
      in \<lparr>ElevationPoint.distance = cd', elevation = e, fileIndex = i\<rparr> #
         samplesAlong cd' (Some (TrackPoint.lat p, TrackPoint.lon p)) rest)"

definition chartKey :: "(number \<Rightarrow> string) \<Rightarrow> nat \<times> TrackPoint \<times> number \<Rightarrow> string" where
  "chartKey ts = (\<lambda>(i, p, e). chartTrackPointKey ts (TrackPoint.lat p) (TrackPoint.lon p) (Some e))"


section \<open>Example values\<close>

text \<open>
  \<^verbatim>\<open>Number::toString\<close> where it needs no rounding: on \<open>NaN\<close>, the infinities and the
  integers of magnitude below \<open>10^21\<close> this is the platform's function. It stands for
  \<open>ts\<close> where a property is evaluated on such values (of any other value it prints the
  integer part only, and no property below applies it to one).
\<close>

definition integerToString :: "number \<Rightarrow> string" where
  "integerToString x =
     (case x of
        NaN \<Rightarrow> ''NaN''
      | PInf \<Rightarrow> ''Infinity''
      | NInf \<Rightarrow> ''-Infinity''
      | Num r \<Rightarrow> (if r < 0 then ''-'' else '''') @ nat_to_string (nat \<lfloor>\<bar>r\<bar>\<rfloor>))"

text \<open>The two files of the repository's merge test.\<close>

definition gpx1 :: GPXData where
  "gpx1 =
     \<lparr>GPXData.name = ''Route 1'',
      tracks = [[\<lparr>TrackPoint.lat = Num 50, lon = Num 14, ele = Some (Num 200), time = None\<rparr>]],
      waypoints = [\<lparr>Waypoint.lat = Num 50, lon = Num 14, ele = None, name = Some ''Start''\<rparr>],
      metadata = None\<rparr>"

definition gpx2 :: GPXData where
  "gpx2 =
     \<lparr>GPXData.name = ''Route 2'',
      tracks = [[\<lparr>TrackPoint.lat = Num 51, lon = Num 15, ele = Some (Num 300), time = None\<rparr>]],
      waypoints = [\<lparr>Waypoint.lat = Num 51, lon = Num 15, ele = None, name = Some ''End''\<rparr>],
      metadata = None\<rparr>"

text \<open>The document of the repository's test of the fallback name.\<close>

definition emptyTrackDocument :: node where
  "emptyTrackDocument = Element ''gpx'' [] [Element ''trk'' [] [Element ''trkseg'' [] []]]"

text \<open>
  Two files with the same place and elevation recorded an hour apart, and the data of
  the repository's serializer test.
\<close>

definition fileMorning :: GPXData where
  "fileMorning =
     \<lparr>GPXData.name = ''morning'',
      tracks = [[\<lparr>TrackPoint.lat = Num 50, lon = Num 14, ele = Some (Num 200),
                 time = Some ''2024-01-01T10:00:00Z''\<rparr>]],
      waypoints = [],
      metadata = None\<rparr>"

definition fileNoon :: GPXData where
  "fileNoon =
     \<lparr>GPXData.name = ''noon'',
      tracks = [[\<lparr>TrackPoint.lat = Num 50, lon = Num 14, ele = Some (Num 200),
                 time = Some ''2024-01-01T11:00:00Z''\<rparr>]],
      waypoints = [],
      metadata = None\<rparr>"


text \<open>A file whose only track has no point, and a file whose name has a markup character.\<close>

definition gpxEmptyTrack :: GPXData where
  "gpxEmptyTrack =
     \<lparr>GPXData.name = ''x'', tracks = [[]], waypoints = [], metadata = None\<rparr>"

definition gpxMinimal :: GPXData where
  "gpxMinimal =
     \<lparr>GPXData.name = ''Minimal'',
      tracks = [[\<lparr>TrackPoint.lat = Num 50, lon = Num 14, ele = None, time = None\<rparr>]],
      waypoints = [\<lparr>Waypoint.lat = Num 51, lon = Num 15, ele = None, name = None\<rparr>],
      metadata = None\<rparr>"

section \<open>Properties of the merge\<close>

lemma filter_upt_Suc:
  "filter P [0..<Suc n] = (if P 0 then [0] else []) @ map Suc (filter (\<lambda>i. P (Suc i)) [0..<n])"
proof -
  have "[0..<Suc n] = 0 # map Suc [0..<n]"
    by (simp add: upt_conv_Cons map_Suc_upt del: upt_Suc)
  then show ?thesis
    by (simp add: filter_map comp_def del: upt_Suc)
qed

lemma filterSeen_index:
  "filterSeen key seen xs =
     map (\<lambda>i. xs ! i)
       (filter (\<lambda>i. key (xs ! i) \<notin> seen \<union> set (map key (take i xs))) [0..<length xs])"
proof (induction xs arbitrary: seen)
  case Nil
  show ?case by simp
next
  case (Cons x xs)
  show ?case
  proof (cases "key x \<in> seen")
    case True
    then have same: "\<And>k S. (k \<notin> seen \<and> k \<noteq> key x \<and> k \<notin> S) = (k \<notin> seen \<and> k \<notin> S)"
      by auto
    from True show ?thesis
      by (simp add: filter_upt_Suc Cons.IH [of seen] comp_def same del: upt_Suc)
  next
    case False
    then show ?thesis
      by (simp add: filter_upt_Suc Cons.IH [of "insert (key x) seen"] comp_def conj_ac
          del: upt_Suc)
  qed
qed

lemma filterSeen_firstOccurrences: "filterSeen key {} xs = firstOccurrences key xs"
  by (simp add: filterSeen_index [of key "{}" xs] firstOccurrences_def)

text \<open>
  C6: the merge of no file is the sentinel value named "empty", without tracks or
  waypoints; it is a value, not an error.
\<close>

theorem mergeGPXData_empty:
  "mergeGPXData ts now [] =
     \<lparr>GPXData.name = ''empty'', tracks = [], waypoints = [], metadata = None\<rparr>"
  by (simp add: mergeGPXData_def)

text \<open>
  C5: the merge of exactly one file is that file, whatever it holds: nothing is
  deduplicated, renamed or rebuilt.
\<close>

theorem mergeGPXData_single: "mergeGPXData ts now [x] = x"
  by (simp add: mergeGPXData_def)

text \<open>
  C2: for two or more files the result is named \<open>merged_<N>_files\<close>, and its track list
  holds the first occurrences (by track point key) of all points of all tracks of all
  files in input order, as one track when there is such a point and no track otherwise.
\<close>

theorem mergeGPXData_many:
  assumes "2 \<le> length gpxFiles"
  shows "GPXData.name (mergeGPXData ts now gpxFiles) =
           ''merged_'' @ nat_to_string (length gpxFiles) @ ''_files'' \<and>
         tracks (mergeGPXData ts now gpxFiles) =
           (let flat = concat (map (\<lambda>gpx. concat (tracks gpx)) gpxFiles);
                unique = firstOccurrences (trackPointKey ts) flat
            in if unique = [] then [] else [unique])"
proof -
  from assms have "length gpxFiles \<noteq> 0" and "length gpxFiles \<noteq> 1" by auto
  then show ?thesis
    by (simp add: mergeGPXData_def deduplicateTrack_def filterSeen_firstOccurrences Let_def)
qed

lemma toFixed_50: "toFixed ts 6 (Num 50) = ''50.000000''"
  unfolding toFixed_def fixedDigits_def Let_def
  by (simp add: nat_to_string.simps digit_char_def)

lemma toFixed_51: "toFixed ts 6 (Num 51) = ''51.000000''"
  unfolding toFixed_def fixedDigits_def Let_def
  by (simp add: nat_to_string.simps digit_char_def)

lemma nat_to_string_2: "nat_to_string 2 = ''2''"
  by (simp add: nat_to_string.simps digit_char_def)

lemma nat_to_string_Suc2: "nat_to_string (Suc (Suc 0)) = ''2''"
  using nat_to_string_2 by (simp add: numeral_2_eq_2)

theorem mergeGPXData_many_witness:
  "2 \<le> length [gpx1, gpx2] \<and>
   GPXData.name (mergeGPXData integerToString ''2024-01-01T10:00:00.000Z'' [gpx1, gpx2]) =
     ''merged_2_files'' \<and>
   tracks (mergeGPXData integerToString ''2024-01-01T10:00:00.000Z'' [gpx1, gpx2]) =
     [[\<lparr>TrackPoint.lat = Num 50, lon = Num 14, ele = Some (Num 200), time = None\<rparr>,
       \<lparr>TrackPoint.lat = Num 51, lon = Num 15, ele = Some (Num 300), time = None\<rparr>]]"
  using mergeGPXData_many [of "[gpx1, gpx2]" integerToString "''2024-01-01T10:00:00.000Z''"]
  by (simp add: gpx1_def gpx2_def firstOccurrences_def trackPointKey_def toFixed_50 toFixed_51
      nat_to_string_Suc2)

section \<open>The name of a parsed file\<close>

lemma replaceFirst_absent:
  "pat \<noteq> [] \<Longrightarrow> \<not> sublist pat f \<Longrightarrow> replaceFirst pat rep f = f"
proof (induction f)
  case Nil
  then show ?case by simp
next
  case (Cons c cs)
  from Cons.prems have "\<not> prefix pat (c # cs)" and "\<not> sublist pat cs"
    by (auto simp: sublist_Cons_right)
  with Cons show ?case by simp
qed

lemma replaceFirst_first:
  assumes "pat \<noteq> []" and "\<not> sublist pat (p @ butlast pat)"
  shows "replaceFirst pat rep (p @ pat @ s) = p @ rep @ s"
  using assms(2)
proof (induction p)
  case Nil
  from assms(1) obtain c cs where pat: "pat = c # cs" by (cases pat) auto
  then show ?case by simp
next
  case (Cons c p)
  have shorter: "length pat \<le> length (c # p @ butlast pat)" by simp
  have "prefix (c # p @ butlast pat) ((c # p) @ pat @ s)"
  proof -
    have "pat = butlast pat @ [last pat]" using assms(1) by simp
    then have "(c # p) @ pat @ s = (c # p @ butlast pat) @ (last pat # s)"
      by (metis append.assoc append_Cons append_Nil)
    then show ?thesis by (metis prefixI)
  qed
  then have "prefix pat ((c # p) @ pat @ s) \<Longrightarrow> prefix pat (c # p @ butlast pat)"
    using shorter prefix_length_prefix by blast
  with Cons.prems have np: "\<not> prefix pat ((c # p) @ pat @ s)"
    by (auto simp: sublist_Cons_right dest: prefix_imp_sublist)
  from Cons.prems have "\<not> sublist pat (p @ butlast pat)"
    by (auto simp: sublist_Cons_right)
  with Cons.IH np show ?case by simp
qed

text \<open>
  What the code computes when the document has no metadata name: the file name without
  the first occurrence of the lower-case text \<^verbatim>\<open>.gpx\<close>, wherever that is, and the file
  name itself when \<^verbatim>\<open>.gpx\<close> does not occur in it.
\<close>

theorem parseDocument_fallback_name:
  assumes "Metadata.name (parseMetadata xmlDoc) = None"
  shows "(\<not> sublist ''.gpx'' fileName \<longrightarrow>
            GPXData.name (parseDocument xmlDoc fileName) = fileName) \<and>
         (\<forall>p s. fileName = p @ ''.gpx'' @ s \<and> \<not> sublist ''.gpx'' (p @ ''.gp'') \<longrightarrow>
            GPXData.name (parseDocument xmlDoc fileName) = p @ s)"
proof -
  have name: "GPXData.name (parseDocument xmlDoc fileName) = replaceFirst ''.gpx'' '''' fileName"
    using assms by (simp add: parseDocument_def)
  have a: "\<not> sublist ''.gpx'' fileName \<Longrightarrow> replaceFirst ''.gpx'' '''' fileName = fileName"
    by (rule replaceFirst_absent) simp_all
  have b: "replaceFirst ''.gpx'' '''' (p @ ''.gpx'' @ s) = p @ s"
    if "\<not> sublist ''.gpx'' (p @ ''.gp'')" for p s
    using replaceFirst_first [of "''.gpx''" p "''''" s] that by simp
  from name a b show ?thesis by auto
qed

lemma emptyTrackDocument_no_name: "Metadata.name (parseMetadata emptyTrackDocument) = None"
  by (simp add: parseMetadata_def emptyTrackDocument_def docQuerySelector_def localName_def)

theorem parseDocument_fallback_name_witness:
  "Metadata.name (parseMetadata emptyTrackDocument) = None \<and>
   GPXData.name (parseDocument emptyTrackDocument ''my-route.gpx'') = ''my-route''"
proof -
  have "\<not> sublist ''.gpx'' (''my-route'' @ ''.gp'')"
    by (simp add: sublist_Cons_right)
  with parseDocument_fallback_name [OF emptyTrackDocument_no_name, of "''my-route.gpx''"]
  have "GPXData.name (parseDocument emptyTrackDocument ''my-route.gpx'') = ''my-route'' @ ''''"
    by (elim conjE allE [of _ "''my-route''"] allE [of _ "''''"]) simp
  with emptyTrackDocument_no_name show ?thesis by simp
qed

text \<open>
  C7: the name is to be the file name without a trailing \<^verbatim>\<open>.gpx\<close> in any letter case.
  The code keeps an upper-case suffix, and removes an occurrence before the end instead
  of the suffix: on both names below it differs from that rule.
\<close>

theorem parseDocument_fallback_name_counterexample:
  "GPXData.name (parseDocument emptyTrackDocument ''ROUTE.GPX'') = ''ROUTE.GPX'' \<and>
   specFallbackName ''ROUTE.GPX'' = ''ROUTE'' \<and>
   GPXData.name (parseDocument emptyTrackDocument ''my.gpx.track.gpx'') = ''my.track.gpx'' \<and>
   specFallbackName ''my.gpx.track.gpx'' = ''my.gpx.track''"
  by (simp add: parseDocument_def emptyTrackDocument_no_name specFallbackName_def lowerChar_def
      suffix_def)

section \<open>The great-circle distance\<close>












section \<open>The samples of the elevation chart\<close>

lemma foldl_concat_nested: "foldl f a (concat xss) = foldl (\<lambda>a xs. foldl f a xs) a xss"
  by (induction xss arbitrary: a) simp_all

lemma firstPass_flat:
  "firstPass ts gpxFiles =
     foldl (\<lambda>st (i, p). visitPoint ts i st p) firstPassStart (indexedPoints gpxFiles)"
proof -
  have inner: "foldl (\<lambda>st (i, p). visitPoint ts i st p) st (map (Pair i) ps) =
      foldl (visitPoint ts i) st ps" for st i ps
    by (induction ps arbitrary: st) simp_all
  have step: "foldl (\<lambda>st (i, p). visitPoint ts i st p) st
        (concat (map (\<lambda>(i, g). map (Pair i) (concat (tracks g))) xs)) =
      foldl (\<lambda>st (i, g). foldl (\<lambda>st track. foldl (visitPoint ts i) st track) st (tracks g)) st xs"
    for st and xs :: "(nat \<times> GPXData) list"
    by (induction xs arbitrary: st)
      (simp_all add: inner foldl_concat_nested split: prod.splits)
  show ?thesis
    by (simp add: firstPass_def indexedPoints_def step)
qed

lemma visit_data:
  "data (foldl (\<lambda>st (i, p). visitPoint ts i st p) st ps) =
     data st @ samplesAlong (cumulativeDistance st) (prevPoint st)
       (filterSeen (chartKey ts) (seenTrackPoints st) (elevationBearing ps))"
proof (induction ps arbitrary: st)
  case Nil
  show ?case by (simp add: elevationBearing_def)
next
  case (Cons x ps)
  obtain i p where x: "x = (i, p)" by (cases x)
  define st' where "st' = visitPoint ts i st p"
  have unfold: "foldl (\<lambda>st (i, p). visitPoint ts i st p) st (x # ps) =
      foldl (\<lambda>st (i, p). visitPoint ts i st p) st' ps"
    by (simp add: x st'_def)
  have bearing: "elevationBearing (x # ps) =
      (case TrackPoint.ele p of None \<Rightarrow> [] | Some e \<Rightarrow> [(i, p, e)]) @ elevationBearing ps"
    by (simp add: elevationBearing_def x)
  show ?case
  proof (cases "TrackPoint.ele p")
    case None
    then have "st' = st" by (simp add: st'_def visitPoint_def)
    with None show ?thesis
      unfolding unfold bearing by (simp add: Cons.IH)
  next
    case (Some e)
    show ?thesis
    proof (cases "chartKey ts (i, p, e) \<in> seenTrackPoints st")
      case True
      then have "st' = st" using Some by (simp add: st'_def visitPoint_def chartKey_def)
      with True Some show ?thesis
        unfolding unfold bearing by (simp add: Cons.IH)
    next
      case False
      define cd where "cd = (case prevPoint st of None \<Rightarrow> cumulativeDistance st
        | Some q \<Rightarrow> nadd (cumulativeDistance st) (segment q p))"
      from False Some have fields:
        "seenTrackPoints st' = insert (chartKey ts (i, p, e)) (seenTrackPoints st)"
        "cumulativeDistance st' = cd"
        "prevPoint st' = Some (TrackPoint.lat p, TrackPoint.lon p)"
        "data st' = data st @ [\<lparr>ElevationPoint.distance = cd, elevation = e, fileIndex = i\<rparr>]"
        by (simp_all add: st'_def visitPoint_def chartKey_def Let_def cd_def)
      from False Some show ?thesis
        unfolding unfold bearing by (simp add: Cons.IH fields Let_def cd_def)
    qed
  qed
qed

text \<open>
  C3, as the code has it: the samples of the first pass are those along the first
  occurrences, by the chart's own key, of the elevation-bearing points of all files, so a
  point whose key was seen adds neither distance nor a sample. The chart's key is made of
  latitude and longitude to 6 decimals and elevation to 1 decimal; the merge key is that
  key followed by a comma and the time stamp, which the chart's key leaves out.
\<close>

theorem firstPass_samples:
  "data (firstPass ts gpxFiles) =
     samplesAlong (Num 0) None
       (firstOccurrences (chartKey ts) (elevationBearing (indexedPoints gpxFiles))) \<and>
   (\<forall>pt. trackPointKey ts pt =
      chartTrackPointKey ts (TrackPoint.lat pt) (TrackPoint.lon pt) (TrackPoint.ele pt) @ '','' @
      orEmpty (TrackPoint.time pt))"
  by (simp add: firstPass_flat visit_data firstPassStart_def filterSeen_firstOccurrences
      trackPointKey_def chartTrackPointKey_def)

lemma toFixed_14: "toFixed ts 6 (Num 14) = ''14.000000''"
  unfolding toFixed_def fixedDigits_def Let_def
  by (simp add: nat_to_string.simps digit_char_def)

lemma toFixed_200: "toFixed ts 1 (Num 200) = ''200.0''"
  unfolding toFixed_def fixedDigits_def Let_def
  by (simp add: nat_to_string.simps digit_char_def)

lemma enumerate_two: "enumerate 0 [a, b] = [(0, a), (1, b)]"
  by (simp add: enumerate_eq_zip upt_conv_Cons)

text \<open>
  Two points that differ in their time stamp only are two points for the merge and one
  sample for the chart.
\<close>

theorem firstPass_samples_counterexample:
  "tracks (mergeGPXData integerToString ''2024-01-02T00:00:00.000Z'' [fileMorning, fileNoon]) =
     [[\<lparr>TrackPoint.lat = Num 50, lon = Num 14, ele = Some (Num 200),
        time = Some ''2024-01-01T10:00:00Z''\<rparr>,
       \<lparr>TrackPoint.lat = Num 50, lon = Num 14, ele = Some (Num 200),
        time = Some ''2024-01-01T11:00:00Z''\<rparr>]] \<and>
   data (firstPass integerToString [fileMorning, fileNoon]) =
     [\<lparr>ElevationPoint.distance = Num 0, elevation = Num 200, fileIndex = 0\<rparr>]"
  by (simp add: mergeGPXData_def deduplicateTrack_def trackPointKey_def fileMorning_def
      fileNoon_def toFixed_50 toFixed_14 toFixed_200 orEmpty_def firstPass_def visitPoint_def
      firstPassStart_def chartTrackPointKey_def enumerate_two Let_def)

section \<open>The y domain of the elevation chart\<close>












section \<open>The outcome of parsing\<close>







section \<open>The coordinates of a parsed point\<close>












section \<open>The round trip through the serializer and the parser\<close>

subsection \<open>Building\<close>

lemma build_node:
  "build ((n, as, ch) # fs) fin (tokensOf nd @ rest) = build ((n, as, nd # ch) # fs) fin rest"
proof (induction nd arbitrary: n as ch fs fin rest)
  case (Text t)
  show ?case by simp
next
  case (Element m bs cs)
  have children: "build ((n', as', ch') # fs') fin (concat (map tokensOf ds) @ rest') =
      build ((n', as', rev ds @ ch') # fs') fin rest'"
    if "set ds \<subseteq> set cs" for ds n' as' ch' fs' rest'
    using that
  proof (induction ds arbitrary: ch')
    case Nil
    show ?case by simp
  next
    case (Cons d ds)
    then have "d \<in> set cs" by simp
    from Element.IH [OF this] Cons show ?case by simp
  qed
  show ?case
    using children [of cs m bs "[]" "(n, as, ch) # fs" "Close m # rest"] by simp
qed

lemma build_children:
  "build ((n, as, ch) # fs) fin (concat (map tokensOf cs) @ rest) =
     build ((n, as, rev cs @ ch) # fs) fin rest"
  by (induction cs arbitrary: ch) (simp_all add: build_node)

lemma build_root: "build [] None (tokensOf (Element n as cs)) = Some (Element n as cs)"
  using build_children [of n as "[]" "[]" None cs "[Close n]"] by simp

subsection \<open>Scanning\<close>

lemma scan_text: "CHR ''<'' \<notin> set t \<Longrightarrow> scan False acc (t @ rest) = scan False (rev t @ acc) rest"
  by (induction t arbitrary: acc) auto

lemma scan_tag:
  "CHR ''<'' \<notin> set body \<Longrightarrow> CHR ''>'' \<notin> set body \<Longrightarrow>
   scan True acc (body @ CHR ''>'' # rest) =
     map_option ((#) (RawTag (rev acc @ body))) (scan False [] rest)"
  by (induction body arbitrary: acc) auto


subsection \<open>Characters\<close>

lemma not_nameChar:
  "\<not> nameChar CHR ''<''" "\<not> nameChar CHR ''>''" "\<not> nameChar CHR 0x22" "\<not> nameChar CHR ''=''"
  "\<not> nameChar CHR ''/''" "\<not> nameChar CHR ''?''" "\<not> nameChar CHR '' ''" "\<not> nameChar CHR 0x09"
  "\<not> nameChar CHR 0x0A" "\<not> nameChar CHR 0x0D" "\<not> nameChar CHR '':''"
  by (simp_all add: nameChar_def isLetter_def isDigit_def)

lemma nameChars_xml:
  "list_all xmlChar ''abcdefghijklmnopqrstuvwxyzABCDEFGHIJKLMNOPQRSTUVWXYZ0123456789_-.''"
  by (simp add: xmlChar_def)

lemma nameChar_xmlChar: "nameChar c \<Longrightarrow> xmlChar c"
proof -
  assume "nameChar c"
  then have "c \<in> set ''abcdefghijklmnopqrstuvwxyzABCDEFGHIJKLMNOPQRSTUVWXYZ0123456789_-.''"
    unfolding nameChar_def isLetter_def isDigit_def by auto
  with nameChars_xml show ?thesis
    unfolding list_all_iff by blast
qed

lemma nameChar_cases:
  assumes "nameChar c"
  shows "c \<noteq> CHR ''<''" "c \<noteq> CHR ''>''" "c \<noteq> CHR 0x22" "c \<noteq> CHR ''=''" "c \<noteq> CHR ''/''"
    "c \<noteq> CHR ''?''" "\<not> isSpace c" "c \<noteq> CHR 0x0D" "xmlChar c" "c \<noteq> CHR '':''"
  using assms not_nameChar nameChar_xmlChar by (auto simp: isSpace_def)

lemma attrNameChar_cases:
  assumes "attrNameChar c"
  shows "c \<noteq> CHR ''<''" "c \<noteq> CHR ''>''" "c \<noteq> CHR 0x22" "c \<noteq> CHR ''=''" "c \<noteq> CHR ''/''"
    "c \<noteq> CHR ''?''" "\<not> isSpace c" "c \<noteq> CHR 0x0D" "xmlChar c"
  using assms nameChar_cases [of c]
  by (auto simp: attrNameChar_def isSpace_def xmlChar_def)


lemma validName_chars: "validName n \<Longrightarrow> list_all nameChar n"
  by (simp add: validName_def)

lemma xmlns_chars: "list_all attrNameChar ''xmlns:''"
  by (simp add: attrNameChar_def nameChar_def isLetter_def)

lemma validAttrName_chars:
  assumes "validAttrName k"
  shows "list_all attrNameChar k"
proof -
  from assms consider "validName k" | "prefix ''xmlns:'' k" "validName (drop 6 k)"
    unfolding validAttrName_def by blast
  then show ?thesis
  proof cases
    case 1
    then have "list_all nameChar k" by (rule validName_chars)
    then show ?thesis unfolding list_all_iff attrNameChar_def by blast
  next
    case 2
    then obtain r where k: "k = ''xmlns:'' @ r" unfolding prefix_def by blast
    with 2 have "list_all nameChar r" by (simp add: validName_def)
    then have "list_all attrNameChar r" unfolding list_all_iff attrNameChar_def by blast
    with xmlns_chars show ?thesis unfolding k list_all_append by blast
  qed
qed

lemma plainChar_cases:
  assumes "plainChar c"
  shows "c \<noteq> CHR ''<''" "c \<noteq> CHR ''>''" "c \<noteq> CHR ''&''" "c \<noteq> CHR 0x0D" "xmlChar c"
    "c \<noteq> CHR 0x09" "c \<noteq> CHR 0x0A"
proof -
  from assms have ge: "32 \<le> (of_char c :: nat)" and no: "c \<notin> set ''<>&''"
    by (simp_all add: plainChar_def)
  from no show "c \<noteq> CHR ''<''" "c \<noteq> CHR ''>''" "c \<noteq> CHR ''&''" by auto
  from ge show "c \<noteq> CHR 0x0D" "c \<noteq> CHR 0x09" "c \<noteq> CHR 0x0A" by auto
  from ge show "xmlChar c" by (simp add: xmlChar_def)
qed

lemma plainAttr_chars: "plainAttr v \<Longrightarrow> c \<in> set v \<Longrightarrow> plainChar c \<and> c \<noteq> CHR 0x22"
  unfolding plainAttr_def list_all_iff by blast

lemma plainText_chars:
  "plainText t \<Longrightarrow> c \<in> set t \<Longrightarrow> plainChar c \<or> c = CHR 0x09 \<or> c = CHR 0x0A"
  unfolding plainText_def list_all_iff by blast

lemma plainText_no_lt: "plainText t \<Longrightarrow> CHR ''<'' \<notin> set t"
  using plainText_chars [of t "CHR ''<''"] plainChar_cases(1) [of "CHR ''<''"] by auto

text \<open>A property of characters that holds of a tree's names and texts holds of its text.\<close>

lemma renderAttrs_all:
  assumes "Q CHR '' ''" "Q CHR ''=''" "Q CHR 0x22"
    and "\<And>k v. (k, v) \<in> set as \<Longrightarrow> list_all Q k \<and> list_all Q v"
  shows "list_all Q (renderAttrs as)"
  using assms(4)
proof (induction as)
  case Nil
  show ?case by simp
next
  case (Cons a as)
  obtain k v where a: "a = (k, v)" by (cases a)
  from Cons.prems [of k v] a have "list_all Q k" "list_all Q v" by simp_all
  moreover have "list_all Q (renderAttrs as)"
    using Cons.prems by (intro Cons.IH) auto
  ultimately show ?case using assms(1-3) by (simp add: a)
qed

lemma wf_attrs_all:
  assumes wf: "list_all (\<lambda>(k, v). validAttrName k \<and> plainAttr v) as"
    and name: "\<And>c. attrNameChar c \<Longrightarrow> Q c"
    and val: "\<And>c. plainChar c \<Longrightarrow> c \<noteq> CHR 0x22 \<Longrightarrow> Q c"
    and lit: "Q CHR '' ''" "Q CHR ''=''" "Q CHR 0x22"
  shows "list_all Q (renderAttrs as)"
proof (rule renderAttrs_all)
  show "Q CHR '' ''" "Q CHR ''=''" "Q CHR 0x22" by fact+
next
  fix k v assume "(k, v) \<in> set as"
  with wf have k: "validAttrName k" and v: "plainAttr v"
    unfolding list_all_iff by blast+
  have "list_all Q k"
    using validAttrName_chars [OF k] name unfolding list_all_iff by blast
  moreover have "list_all Q v"
    using plainAttr_chars [OF v] val unfolding list_all_iff by blast
  ultimately show "list_all Q k \<and> list_all Q v" ..
qed

lemma tag_body_safe:
  assumes "validName n" and "list_all (\<lambda>(k, v). validAttrName k \<and> plainAttr v) as"
  shows "CHR ''<'' \<notin> set (n @ renderAttrs as)" "CHR ''>'' \<notin> set (n @ renderAttrs as)"
proof -
  have "list_all (\<lambda>c. c \<noteq> CHR ''<'' \<and> c \<noteq> CHR ''>'') (renderAttrs as)"
  proof (rule wf_attrs_all [OF assms(2)])
    fix c assume "attrNameChar c"
    then show "c \<noteq> CHR ''<'' \<and> c \<noteq> CHR ''>''" using attrNameChar_cases(1,2) by blast
  next
    fix c assume "plainChar c"
    then show "c \<noteq> CHR ''<'' \<and> c \<noteq> CHR ''>''" using plainChar_cases(1,2) by blast
  qed simp_all
  moreover have "list_all (\<lambda>c. c \<noteq> CHR ''<'' \<and> c \<noteq> CHR ''>'') n"
    using validName_chars [OF assms(1)] nameChar_cases(1,2) unfolding list_all_iff by blast
  ultimately show "CHR ''<'' \<notin> set (n @ renderAttrs as)" "CHR ''>'' \<notin> set (n @ renderAttrs as)"
    unfolding list_all_iff by auto
qed

lemma scan_node:
  "wfNode nd \<Longrightarrow> \<not> isText nd \<Longrightarrow>
   scan True [] (tl (render nd) @ rest) = map_option ((@) (rawsOf nd)) (scan False [] rest)"
proof (induction nd arbitrary: rest)
  case (Text t)
  then show ?case by simp
next
  case (Element n as cs)
  have children: "scan False acc (concat (map render ds) @ CHR ''<'' # r) =
      map_option ((@) (textOf acc @ concat (map rawsOf ds))) (scan True [] r)"
    if "set ds \<subseteq> set cs" "list_all wfNode ds" "noTextPairs ds"
      "acc = [] \<or> ds = [] \<or> \<not> isText (hd ds)"
    for ds acc r
    using that
  proof (induction ds arbitrary: acc)
    case Nil
    show ?case by (simp add: option.map_comp comp_def)
  next
    case (Cons d ds)
    have tail_ok: "set ds \<subseteq> set cs" "list_all wfNode ds" "noTextPairs ds"
      using Cons.prems by (cases ds; simp)+
    show ?case
    proof (cases d)
      case (Text t)
      with Cons.prems have acc: "acc = []" and t: "t \<noteq> []" "CHR ''<'' \<notin> set t"
        using plainText_no_lt by auto
      have next_ok: "rev t = [] \<or> ds = [] \<or> \<not> isText (hd ds)"
        using Cons.prems(3) Text by (cases ds) auto
      have "scan False [] (concat (map render (d # ds)) @ CHR ''<'' # r) =
          scan False (rev t) (concat (map render ds) @ CHR ''<'' # r)"
        using scan_text [OF t(2), of "[]"] by (simp add: Text)
      also have "\<dots> = map_option ((@) (textOf (rev t) @ concat (map rawsOf ds))) (scan True [] r)"
        by (rule Cons.IH [OF tail_ok next_ok])
      finally show ?thesis using t(1)
        by (cases "scan True [] r") (simp_all add: acc Text textOf_def)
    next
      case (Element m bs es)
      from Cons.prems have d: "d \<in> set cs" "wfNode d" by auto
      have tail: "scan False [] (concat (map render ds) @ CHR ''<'' # r) =
          map_option ((@) (textOf [] @ concat (map rawsOf ds))) (scan True [] r)"
        by (rule Cons.IH [OF tail_ok]) simp
      have "scan False acc (concat (map render (d # ds)) @ CHR ''<'' # r) =
          map_option ((@) (textOf acc))
            (scan True [] (tl (render d) @ (concat (map render ds) @ CHR ''<'' # r)))"
        by (simp add: Element)
      also have "\<dots> = map_option ((@) (textOf acc))
          (map_option ((@) (rawsOf d)) (scan False [] (concat (map render ds) @ CHR ''<'' # r)))"
        using Element.IH [OF d(1) d(2), of "concat (map render ds) @ CHR ''<'' # r"] Element
        by (cases "scan False [] (concat (map render ds) @ CHR ''<'' # r)") simp_all
      finally show ?thesis
        by (cases "scan True [] r") (simp_all add: tail textOf_def)
    qed
  qed
  from Element.prems have wf: "validName n" "list_all (\<lambda>(k, v). validAttrName k \<and> plainAttr v) as"
    "list_all wfNode cs" "noTextPairs cs"
    by simp_all
  have close_safe: "CHR ''<'' \<notin> set (''/'' @ n)" "CHR ''>'' \<notin> set (''/'' @ n)"
    using validName_chars [OF wf(1)] nameChar_cases(1,2) unfolding list_all_iff by auto
  have "scan True [] ((n @ renderAttrs as) @ CHR ''>'' #
        (concat (map render cs) @ CHR ''<'' # ((''/'' @ n) @ CHR ''>'' # rest))) =
      map_option ((#) (RawTag (n @ renderAttrs as)))
        (scan False [] (concat (map render cs) @ CHR ''<'' # ((''/'' @ n) @ CHR ''>'' # rest)))"
    using scan_tag [OF tag_body_safe [OF wf(1,2)], of "[]"] by simp
  also have "scan False [] (concat (map render cs) @ CHR ''<'' # ((''/'' @ n) @ CHR ''>'' # rest)) =
      map_option ((@) (concat (map rawsOf cs))) (scan True [] ((''/'' @ n) @ CHR ''>'' # rest))"
    using children [of cs "[]"] wf by (simp add: textOf_def)
  also have "scan True [] ((''/'' @ n) @ CHR ''>'' # rest) =
      map_option ((#) (RawTag (''/'' @ n))) (scan False [] rest)"
    using scan_tag [OF close_safe, of "[]"] by simp
  finally show ?case
    by (cases "scan False [] rest") simp_all
qed

subsection \<open>Tags and text\<close>

lemma validName_nonempty: "validName n \<Longrightarrow> n \<noteq> []"
  by (simp add: validName_def)

lemma validAttrName_nonempty: "validAttrName k \<Longrightarrow> k \<noteq> []"
  by (auto simp: validAttrName_def validName_def)

lemma plainAttr_attrSpace: "plainAttr v \<Longrightarrow> map attrSpace v = v"
proof -
  assume v: "plainAttr v"
  have "attrSpace c = c" if "c \<in> set v" for c
    using plainAttr_chars [OF v that] plainChar_cases(6,7) [of c] by (simp add: attrSpace_def)
  then show ?thesis by (simp add: map_idI)
qed

lemma parseAttrs_Nil: "parseAttrs [] = Some []"
  by (subst parseAttrs.simps) (simp add: nextAttr_def)

lemma nextAttr_one:
  assumes k: "validAttrName k" and v: "plainAttr v"
  shows \<open>nextAttr ('' '' @ k @ ''="'' @ v @ ''"'' @ rest) = Some (Some ((k, v), rest))\<close>
proof -
  define s where \<open>s = '' '' @ k @ ''="'' @ v @ ''"'' @ rest\<close>
  define s1 where \<open>s1 = k @ ''="'' @ v @ ''"'' @ rest\<close>
  define s2 where \<open>s2 = ''="'' @ v @ ''"'' @ rest\<close>
  define s3 where \<open>s3 = CHR 0x22 # v @ ''"'' @ rest\<close>
  have kc: "\<And>c. c \<in> set k \<Longrightarrow> attrNameChar c"
    using validAttrName_chars [OF k] unfolding list_all_iff by blast
  from validAttrName_nonempty [OF k] obtain c cs where kcs: "k = c # cs" by (cases k) auto
  then have "\<not> isSpace c" using kc attrNameChar_cases(7) by simp
  then have d1: "dropWhile isSpace s = s1"
    by (simp add: s_def s1_def isSpace_def kcs)
  have len: "length s1 \<noteq> length s" "s1 \<noteq> []"
    by (simp_all add: s_def s1_def kcs)
  have not_eq: "\<not> attrNameChar CHR ''=''"
    using attrNameChar_cases(4) by blast
  have tk: "takeWhile attrNameChar s1 = k"
    unfolding s1_def using kc not_eq by (simp add: takeWhile_append2)
  have "dropWhile attrNameChar s1 = s2"
    unfolding s1_def s2_def using kc not_eq by (simp add: dropWhile_append2)
  then have r1: "dropWhile isSpace (dropWhile attrNameChar s1) = s2"
    by (simp add: s2_def isSpace_def)
  have s2: "s2 \<noteq> []" "hd s2 = CHR ''=''" "tl s2 = s3"
    by (simp_all add: s2_def s3_def)
  have r2: "dropWhile isSpace s3 = s3"
    by (simp add: s3_def isSpace_def)
  have s3: "s3 \<noteq> []" "hd s3 = CHR 0x22" \<open>tl s3 = v @ ''"'' @ rest\<close>
    by (simp_all add: s3_def)
  have vq: "\<And>c. c \<in> set v \<Longrightarrow> c \<noteq> CHR 0x22"
    using plainAttr_chars [OF v] by blast
  have tv: \<open>takeWhile (\<lambda>c. c \<noteq> CHR 0x22) (v @ ''"'' @ rest) = v\<close>
    using vq by (simp add: takeWhile_append2)
  have dv: \<open>dropWhile (\<lambda>c. c \<noteq> CHR 0x22) (v @ ''"'' @ rest) = CHR 0x22 # rest\<close>
    using vq by (simp add: dropWhile_append2)
  have safe: "CHR ''<'' \<notin> set v" "CHR ''&'' \<notin> set v"
    using plainAttr_chars [OF v] plainChar_cases(1,3) by blast+
  have "nextAttr s = Some (Some ((k, map attrSpace v), rest))"
    unfolding nextAttr_def Let_def d1 tk r1 s2(2,3) r2 s3(2,3) tv dv
    using len k safe s2(1) s3(1) by simp
  then show ?thesis
    by (simp add: s_def plainAttr_attrSpace [OF v])
qed

lemma parseAttrs_one:
  assumes k: "validAttrName k" and v: "plainAttr v"
  shows \<open>parseAttrs ('' '' @ k @ ''="'' @ v @ ''"'' @ rest) =
           map_option ((#) (k, v)) (parseAttrs rest)\<close>
  using nextAttr_one [OF k v, of rest] by (subst parseAttrs.simps) simp

lemma parseAttrs_render:
  "list_all (\<lambda>(k, v). validAttrName k \<and> plainAttr v) as \<Longrightarrow> parseAttrs (renderAttrs as) = Some as"
proof (induction as)
  case Nil
  show ?case by (simp add: parseAttrs_Nil)
next
  case (Cons a as)
  obtain k v where a: "a = (k, v)" by (cases a)
  with Cons.prems have "validAttrName k" "plainAttr v" by simp_all
  from parseAttrs_one [OF this, of "renderAttrs as"] Cons show ?case
    by (simp add: a)
qed

lemma renderAttrs_head: "renderAttrs as = [] \<or> hd (renderAttrs as) = CHR '' ''"
  by (cases as) auto

lemma renderAttrs_last: "renderAttrs as = [] \<or> last (renderAttrs as) = CHR 0x22"
  by (induction as) (auto split: if_splits)

lemma interpretTag_open:
  assumes n: "validName n" and as: "list_all (\<lambda>(k, v). validAttrName k \<and> plainAttr v) as"
    and d: "distinct (map fst as)"
  shows "interpretTag (n @ renderAttrs as) = Some [Open n as]"
proof -
  define body where "body = n @ renderAttrs as"
  have nc: "\<And>c. c \<in> set n \<Longrightarrow> nameChar c"
    using validName_chars [OF n] unfolding list_all_iff by blast
  from validName_nonempty [OF n] obtain c cs where ncs: "n = c # cs" by (cases n) auto
  have ne: "body \<noteq> []" by (simp add: body_def ncs)
  have hd_ok: "hd body \<noteq> CHR ''/''"
    using nc nameChar_cases(5) by (simp add: body_def ncs)
  have "last n \<noteq> CHR ''/''"
    using nc [of "last n"] nameChar_cases(5) validName_nonempty [OF n] by auto
  then have last_ok: "last body \<noteq> CHR ''/''"
    unfolding body_def using renderAttrs_last [of as] by (cases "renderAttrs as = []") auto
  have sp: "\<not> nameChar CHR '' ''" by (rule not_nameChar)
  have tw: "takeWhile nameChar body = n"
    unfolding body_def using nc renderAttrs_head [of as] sp
    by (cases "renderAttrs as") (auto simp: takeWhile_append2)
  have dw: "dropWhile nameChar body = renderAttrs as"
    unfolding body_def using nc renderAttrs_head [of as] sp
    by (cases "renderAttrs as") (auto simp: dropWhile_append2)
  have "interpretTag body = Some [Open n as]"
    unfolding interpretTag_def Let_def
    using ne hd_ok last_ok n d by (simp add: tw dw parseAttrs_render [OF as])
  then show ?thesis by (simp add: body_def)
qed

lemma interpretTag_close:
  assumes n: "validName n"
  shows "interpretTag (''/'' @ n) = Some [Close n]"
proof -
  have tw: "takeWhile nameChar n = n" and dw: "dropWhile nameChar n = []"
    using validName_chars [OF n] unfolding list_all_iff by simp_all
  show ?thesis by (simp add: interpretTag_def Let_def tw dw n)
qed

lemma interpretText_plain:
  assumes "plainText t"
  shows "interpretText t = Some [Chars t]"
proof -
  have gt: "CHR ''>'' \<notin> set t" and amp: "CHR ''&'' \<notin> set t"
    using plainText_chars [OF assms] plainChar_cases(2,3) by fastforce+
  have "\<not> sublist '']]>'' t"
  proof
    assume "sublist '']]>'' t"
    then have "set '']]>'' \<subseteq> set t" by (rule set_mono_sublist)
    with gt show False by simp
  qed
  with amp show ?thesis by (simp add: interpretText_def)
qed

lemma interpretAll_append:
  "interpretAll (xs @ ys) =
     (case interpretAll xs of None \<Rightarrow> None | Some a \<Rightarrow> map_option ((@) a) (interpretAll ys))"
proof (induction xs)
  case Nil
  show ?case by (cases "interpretAll ys") simp_all
next
  case (Cons x xs)
  show ?case
    by (cases "case x of RawText t \<Rightarrow> interpretText t | RawTag b \<Rightarrow> interpretTag b";
        cases "interpretAll xs"; cases "interpretAll ys")
      (simp_all add: Cons.IH)
qed

lemma interpretAll_node: "wfNode nd \<Longrightarrow> interpretAll (rawsOf nd) = Some (tokensOf nd)"
proof (induction nd)
  case (Text t)
  then show ?case by (simp add: interpretText_plain)
next
  case (Element n as cs)
  then have wf: "validName n" "list_all (\<lambda>(k, v). validAttrName k \<and> plainAttr v) as"
    "distinct (map fst as)" "list_all wfNode cs"
    by simp_all
  have children: "interpretAll (concat (map rawsOf ds)) = Some (concat (map tokensOf ds))"
    if "set ds \<subseteq> set cs" for ds
    using that
  proof (induction ds)
    case Nil
    show ?case by simp
  next
    case (Cons d ds)
    then have "d \<in> set cs" by simp
    moreover from this wf(4) have "wfNode d" unfolding list_all_iff by blast
    ultimately have "interpretAll (rawsOf d) = Some (tokensOf d)" by (rule Element.IH)
    with Cons show ?case by (simp add: interpretAll_append)
  qed
  show ?case
    using children [of cs] interpretTag_open [OF wf(1,2,3)] interpretTag_close [OF wf(1)]
    by (simp add: interpretAll_append)
qed

subsection \<open>The whole text\<close>

lemma render_all:
  assumes lit: "Q CHR ''<''" "Q CHR ''>''" "Q CHR ''/''" "Q CHR '' ''" "Q CHR ''=''" "Q CHR 0x22"
      "Q CHR 0x09" "Q CHR 0x0A"
    and name: "\<And>c. attrNameChar c \<Longrightarrow> Q c"
    and plain: "\<And>c. plainChar c \<Longrightarrow> Q c"
  shows "wfNode nd \<Longrightarrow> list_all Q (render nd)"
proof (induction nd)
  case (Text t)
  then have "plainText t" by simp
  from plainText_chars [OF this] lit(7,8) plain show ?case
    unfolding list_all_iff by auto
next
  case (Element n as cs)
  then have wf: "validName n" "list_all (\<lambda>(k, v). validAttrName k \<and> plainAttr v) as"
    "list_all wfNode cs"
    by simp_all
  have n: "list_all Q n"
    using validName_chars [OF wf(1)] name unfolding list_all_iff attrNameChar_def by blast
  have as: "list_all Q (renderAttrs as)"
    by (rule wf_attrs_all [OF wf(2)]) (use name plain lit in auto)
  have cs: "list_all Q (concat (map render cs))"
    using Element.IH wf(3) unfolding list_all_iff by auto
  from n as cs lit show ?case by simp
qed

lemma render_xmlChar: "wfNode nd \<Longrightarrow> list_all xmlChar (render nd)"
proof (rule render_all)
  show "xmlChar CHR ''<''" "xmlChar CHR ''>''" "xmlChar CHR ''/''" "xmlChar CHR '' ''"
    "xmlChar CHR ''=''" "xmlChar CHR 0x22" "xmlChar CHR 0x09" "xmlChar CHR 0x0A"
    by (simp_all add: xmlChar_def)
qed (use attrNameChar_cases(9) plainChar_cases(5) in auto)

lemma render_no_CR: "wfNode nd \<Longrightarrow> CHR 0x0D \<notin> set (render nd)"
proof -
  assume "wfNode nd"
  then have "list_all (\<lambda>c. c \<noteq> CHR 0x0D) (render nd)"
  proof (rule render_all [rotated -1])
    show "\<And>c. attrNameChar c \<Longrightarrow> c \<noteq> CHR 0x0D" by (rule attrNameChar_cases(8))
    show "\<And>c. plainChar c \<Longrightarrow> c \<noteq> CHR 0x0D" by (rule plainChar_cases(4))
  qed simp_all
  then show ?thesis unfolding list_all_iff by blast
qed

lemma normalizeEol_id: "CHR 0x0D \<notin> set s \<Longrightarrow> normalizeEol s = s"
  by (induction s rule: normalizeEol.induct) auto

lemma declaration_attrs:
  \<open>parseAttrs '' version="1.0" encoding="UTF-8"'' =
     Some [(''version'', ''1.0''), (''encoding'', ''UTF-8'')]\<close>
  by code_simp

lemma afterDeclaration_decl: "afterDeclaration (xmlDeclaration @ rest) = Some rest"
  unfolding afterDeclaration_def xmlDeclaration_def Let_def
  by (simp add: declaration_attrs)

lemma parseXml_render:
  assumes wf: "wfNode (Element n as cs)"
  shows "parseXml (xmlDeclaration @ nl @ render (Element n as cs)) = Some (Element n as cs)"
proof -
  define doc where "doc = Element n as cs"
  have wfr: "wfNode doc" "\<not> isText doc" using wf by (simp_all add: doc_def)
  define input where "input = xmlDeclaration @ nl @ render doc"
  have chars: "list_all xmlChar input"
    using render_xmlChar [OF wfr(1)] by (simp add: input_def xmlDeclaration_def nl_def xmlChar_def)
  have "CHR 0x0D \<notin> set input"
    using render_no_CR [OF wfr(1)] by (simp add: input_def xmlDeclaration_def nl_def)
  then have norm: "normalizeEol input = input" by (rule normalizeEol_id)
  have after: "afterDeclaration input = Some (nl @ render doc)"
    unfolding input_def by (rule afterDeclaration_decl)
  have head: "render doc = CHR ''<'' # tl (render doc)"
    by (simp add: doc_def)
  have "scan False [] (nl @ render doc) = scan False (rev nl) (render doc)"
    using scan_text [of nl "[]" "render doc"] by (simp add: nl_def)
  also have "\<dots> = map_option ((@) (textOf (rev nl))) (scan True [] (tl (render doc) @ []))"
    by (subst head) simp
  also have "\<dots> = Some (RawText nl # rawsOf doc)"
    using scan_node [OF wfr, of "[]"] by (simp add: textOf_def nl_def)
  finally have scanned: "scan False [] (nl @ render doc) = Some (RawText nl # rawsOf doc)" .
  have toks: "interpretAll (RawText nl # rawsOf doc) = Some (Chars nl # tokensOf doc)"
    using interpretAll_node [OF wfr(1)]
    by (simp add: interpretText_def nl_def sublist_Cons_right)
  have built: "build [] None (Chars nl # tokensOf doc) = Some doc"
    using build_root [of n as cs] by (simp add: doc_def nl_def isSpace_def)
  show ?thesis
    unfolding doc_def [symmetric] input_def [symmetric] parseXml_def norm after
    using chars by (simp add: scanned toks built del: interpretAll.simps build.simps)
qed

subsection \<open>The serializer writes the tree\<close>

lemma foldl_chunks:
  "(\<And>xml x. x \<in> set xs \<Longrightarrow> f xml x = xml @ g x) \<Longrightarrow> foldl f acc xs = acc @ concat (map g xs)"
  by (induction xs arbitrary: acc) simp_all

lemma render_pairs:
  "concat (map render (concat (map (\<lambda>x. [Text a, g x]) xs))) =
     concat (map (\<lambda>x. a @ render (g x)) xs)"
  by (induction xs) simp_all

lemma render_textNodes: "concat (map render (textNodes s)) = s"
  by (simp add: textNodes_def)

lemma wptXML_plain:
  assumes "Waypoint.ele w = None"
  shows "wptXML ts xml w = xml @ ind2 @ render (wptNode ts w)"
  using assms
  by (simp add: wptXML_def wptNode_def coordAttrs_def ind2_def Let_def)

lemma trkptXML_plain:
  assumes "TrackPoint.ele p = None" "TrackPoint.time p = None"
  shows "trkptXML ts xml p = xml @ ind6 @ render (trkptNode ts p)"
  using assms
  by (simp add: trkptXML_def trkptNode_def coordAttrs_def ind6_def Let_def orUndefined_def)

lemma trkXML_plain:
  assumes "\<forall>p \<in> set track. TrackPoint.ele p = None \<and> TrackPoint.time p = None"
  shows "trkXML ts xml (i, track) = xml @ ind2 @ render (trkNode ts (i, track))"
proof -
  have "foldl (trkptXML ts) acc track =
      acc @ concat (map (\<lambda>p. ind6 @ render (trkptNode ts p)) track)" for acc
    by (rule foldl_chunks) (use assms trkptXML_plain in auto)
  then show ?thesis
    by (simp add: trkXML_def trkNode_def trksegNode_def Let_def render_pairs ind2_def ind4_def)
qed

lemma gpxDataToXML_render:
  assumes "latLonOnly gpxData"
  shows "gpxDataToXML ts now gpxData = xmlDeclaration @ nl @ render (gpxTree ts now gpxData)"
proof -
  have wpts: "foldl (wptXML ts) acc (waypoints gpxData) =
      acc @ concat (map (\<lambda>w. ind2 @ render (wptNode ts w)) (waypoints gpxData))" for acc
    by (rule foldl_chunks) (use assms wptXML_plain in \<open>auto simp: latLonOnly_def\<close>)
  have trks: "foldl (trkXML ts) acc (enumerate 0 (tracks gpxData)) =
      acc @ concat (map (\<lambda>t. ind2 @ render (trkNode ts t)) (enumerate 0 (tracks gpxData)))" for acc
  proof (rule foldl_chunks)
    fix xml and x :: "nat \<times> TrackPoint list"
    assume x: "x \<in> set (enumerate 0 (tracks gpxData))"
    obtain i track where it: "x = (i, track)" by (cases x)
    with x have "track \<in> set (tracks gpxData)" by (auto simp: in_set_enumerate_eq)
    with assms have "\<forall>p \<in> set track. TrackPoint.ele p = None \<and> TrackPoint.time p = None"
      by (auto simp: latLonOnly_def)
    then show "trkXML ts xml x = xml @ ind2 @ render (trkNode ts x)"
      unfolding it by (rule trkXML_plain)
  qed
  show ?thesis
    by (simp add: gpxDataToXML_def Let_def wpts trks gpxTree_def metadataNode_def render_pairs
        render_textNodes xmlDeclaration_def metadataName_def metadataDesc_def metadataTime_def
        ind2_def ind4_def)
qed

subsection \<open>The tree is well formed\<close>

lemma valid_names:
  "validName ''gpx''" "validName ''metadata''" "validName ''name''" "validName ''desc''"
  "validName ''time''" "validName ''wpt''" "validName ''trk''" "validName ''trkseg''"
  "validName ''trkpt''" "validName ''lat''" "validName ''lon''" "validName ''version''"
  "validName ''creator''" "validName ''xmlns''"
  by (simp_all add: validName_def nameStart_def nameChar_def isLetter_def)

lemma plain_literals:
  "plainAttr ''1.1''" "plainAttr ''GPX Merger''" "plainAttr ''http://www.topografix.com/GPX/1/1''"
  "plainText ''Track ''"
  by (simp_all add: plainAttr_def plainText_def plainChar_def)

lemma plain_indents: "plainText nl" "plainText ind2" "plainText ind4" "plainText ind6"
  by (simp_all add: plainText_def plainChar_def nl_def ind2_def ind4_def ind6_def)

lemma indents_nonempty: "nl \<noteq> []" "ind2 \<noteq> []" "ind4 \<noteq> []" "ind6 \<noteq> []"
  by (simp_all add: nl_def ind2_def ind4_def ind6_def)

lemma digit_plain: "d < 10 \<Longrightarrow> plainChar (digit_char d)"
proof -
  assume "d < 10"
  then have "d \<in> {0, 1, 2, 3, 4, 5, 6, 7, 8, 9}" by auto
  then show ?thesis
    by (auto simp: digit_char_def plainChar_def)
qed

lemma nat_to_string_plain: "list_all plainChar (nat_to_string k)"
proof (induction k rule: nat_to_string.induct)
  case (1 n)
  show ?case
  proof (cases "n < 10")
    case True
    then show ?thesis by (subst nat_to_string.simps) (simp add: digit_plain)
  next
    case False
    then have "list_all plainChar (nat_to_string (n div 10))" by (rule 1)
    moreover have "plainChar (digit_char (n mod 10))" by (rule digit_plain) simp
    ultimately show ?thesis using False by (subst nat_to_string.simps) simp
  qed
qed

lemma track_name_plain: "plainText (''Track '' @ nat_to_string k)"
  using plain_literals(4) nat_to_string_plain [of k]
  unfolding plainText_def list_all_iff by auto

lemma wf_textNodes: "plainText s \<Longrightarrow> list_all wfNode (textNodes s)"
  by (simp add: textNodes_def)

lemma noTextPairs_textNodes: "noTextPairs (textNodes s)"
  by (simp add: textNodes_def)

lemma noTextPairs_after:
  assumes g: "\<And>x. \<not> isText (g x)" and post: "\<And>e. \<not> isText e \<Longrightarrow> noTextPairs (e # post)"
  shows "\<not> isText e \<Longrightarrow> noTextPairs (e # concat (map (\<lambda>x. [Text a, g x]) xs) @ post)"
proof (induction xs arbitrary: e)
  case Nil
  then show ?case by (simp add: post)
next
  case (Cons x xs)
  from Cons.IH [OF g] Cons.prems g show ?case by simp
qed

lemma noTextPairs_pairs:
  assumes g: "\<And>x. \<not> isText (g x)" and post: "\<And>e. \<not> isText e \<Longrightarrow> noTextPairs (e # post)"
    and "noTextPairs post"
  shows "noTextPairs (concat (map (\<lambda>x. [Text a, g x]) xs) @ post)"
proof (cases xs)
  case Nil
  with assms(3) show ?thesis by simp
next
  case (Cons x xs')
  from noTextPairs_after [OF g post, where e = "g x" and a = a and xs = xs'] g show ?thesis
    by (simp add: Cons)
qed

lemma wf_pairs:
  "list_all wfNode (concat (map (\<lambda>x. [Text a, g x]) xs)) =
     (xs = [] \<or> (wfNode (Text a) \<and> list_all (\<lambda>x. wfNode (g x)) xs))"
  by (induction xs) auto

lemma wf_coordAttrs:
  assumes "printable ts la" "printable ts lo"
  shows "list_all (\<lambda>(k, v). validAttrName k \<and> plainAttr v) (coordAttrs ts la lo)"
    "distinct (map fst (coordAttrs ts la lo))"
  using assms by (simp_all add: coordAttrs_def printable_def validAttrName_def valid_names)

lemma wf_wptNode:
  assumes "printable ts (Waypoint.lat w)" "printable ts (Waypoint.lon w)"
  shows "wfNode (wptNode ts w)"
  using wf_coordAttrs [OF assms]
  by (simp add: wptNode_def valid_names plain_indents indents_nonempty)

lemma wf_trkptNode:
  assumes "printable ts (TrackPoint.lat p)" "printable ts (TrackPoint.lon p)"
  shows "wfNode (trkptNode ts p)"
  using wf_coordAttrs [OF assms]
  by (simp add: trkptNode_def valid_names plain_indents indents_nonempty)

lemma trkptNode_element: "\<not> isText (trkptNode ts p)"
  by (simp add: trkptNode_def)

lemma wf_trksegNode:
  assumes "\<forall>p \<in> set track. printable ts (TrackPoint.lat p) \<and> printable ts (TrackPoint.lon p)"
  shows "wfNode (trksegNode ts track)"
proof -
  have "list_all (\<lambda>p. wfNode (trkptNode ts p)) track"
    using assms wf_trkptNode unfolding list_all_iff by blast
  moreover have "noTextPairs (concat (map (\<lambda>p. [Text ind6, trkptNode ts p]) track) @ [Text ind4])"
    by (rule noTextPairs_pairs) (simp_all add: trkptNode_element)
  ultimately show ?thesis
    by (simp add: trksegNode_def valid_names wf_pairs plain_indents indents_nonempty)
qed

lemma trksegNode_element: "\<not> isText (trksegNode ts track)"
  by (simp add: trksegNode_def)

lemma wf_trkNode:
  assumes "\<forall>p \<in> set track. printable ts (TrackPoint.lat p) \<and> printable ts (TrackPoint.lon p)"
  shows "wfNode (trkNode ts (i, track))"
  using wf_trksegNode [OF assms] track_name_plain [of "i + 1"]
  by (simp add: trkNode_def valid_names plain_indents indents_nonempty trksegNode_element)

lemma wf_metadataNode:
  assumes "plainText n" "plainText d" "plainText t"
  shows "wfNode (metadataNode n d t)"
  using assms
  by (simp add: metadataNode_def valid_names plain_indents indents_nonempty wf_textNodes
      noTextPairs_textNodes)


lemma wptNode_element: "\<not> isText (wptNode ts w)"
  by (simp add: wptNode_def)

lemma trkNode_element: "\<not> isText (trkNode ts t)"
  by (cases t) (simp add: trkNode_def)

lemma metadataNode_element: "\<not> isText (metadataNode n d t)"
  by (simp add: metadataNode_def)

lemma printable_coordinates:
  assumes "\<forall>x \<in> set (coordinates gpxData). printable ts x"
  shows "\<And>w. w \<in> set (waypoints gpxData) \<Longrightarrow>
           printable ts (Waypoint.lat w) \<and> printable ts (Waypoint.lon w)"
    and "\<And>track p. track \<in> set (tracks gpxData) \<Longrightarrow> p \<in> set track \<Longrightarrow>
           printable ts (TrackPoint.lat p) \<and> printable ts (TrackPoint.lon p)"
  using assms by (auto simp: coordinates_def)

lemma wf_gpxTree:
  assumes coords: "\<forall>x \<in> set (coordinates gpxData). printable ts x"
    and texts: "plainText (metadataName gpxData)" "plainText (metadataDesc gpxData)"
      "plainText (metadataTime now gpxData)"
  shows "wfNode (gpxTree ts now gpxData)"
proof -
  have wpts: "list_all (\<lambda>w. wfNode (wptNode ts w)) (waypoints gpxData)"
    using printable_coordinates(1) [OF coords] wf_wptNode unfolding list_all_iff by blast
  have trks: "list_all (\<lambda>t. wfNode (trkNode ts t)) (enumerate 0 (tracks gpxData))"
    unfolding list_all_iff
  proof
    fix t assume t: "t \<in> set (enumerate 0 (tracks gpxData))"
    obtain i track where it: "t = (i, track)" by (cases t)
    with t have "track \<in> set (tracks gpxData)" by (auto simp: in_set_enumerate_eq)
    then have "\<forall>p \<in> set track. printable ts (TrackPoint.lat p) \<and> printable ts (TrackPoint.lon p)"
      using printable_coordinates(2) [OF coords] by blast
    then show "wfNode (trkNode ts t)" unfolding it by (rule wf_trkNode)
  qed
  have last: "\<And>e. \<not> isText e \<Longrightarrow> noTextPairs (e # [Text nl])"
    by simp
  have after_trks: "\<And>e. \<not> isText e \<Longrightarrow>
      noTextPairs (e # concat (map (\<lambda>t. [Text ind2, trkNode ts t]) (enumerate 0 (tracks gpxData))) @
        [Text nl])"
    by (rule noTextPairs_after [OF trkNode_element last])
  have after_wpts: "noTextPairs (metadataNode (metadataName gpxData) (metadataDesc gpxData)
        (metadataTime now gpxData) #
      concat (map (\<lambda>w. [Text ind2, wptNode ts w]) (waypoints gpxData)) @
      (concat (map (\<lambda>t. [Text ind2, trkNode ts t]) (enumerate 0 (tracks gpxData))) @ [Text nl]))"
    by (rule noTextPairs_after [OF wptNode_element after_trks metadataNode_element])
  show ?thesis
    using wf_metadataNode [OF texts] wpts trks after_wpts
    by (simp add: gpxTree_def valid_names plain_literals validAttrName_def wf_pairs
        plain_indents indents_nonempty metadataNode_element)
qed

subsection \<open>Reading the tree\<close>

lemma filter_below_pairs:
  assumes "\<And>t. \<not> P (Text t)"
  shows "filter P (concat (map (\<lambda>c. c # descendants c) (concat (map (\<lambda>x. [Text a, g x]) xs)))) =
     concat (map (\<lambda>x. filter P (g x # descendants (g x))) xs)"
  by (induction xs) (simp_all add: assms)

lemma filter_below_textNodes:
  assumes "\<And>t. \<not> P (Text t)"
  shows "filter P (concat (map (\<lambda>c. c # descendants c) (textNodes s))) = []"
  by (simp add: textNodes_def assms)

lemma local_names:
  "localName ''gpx'' = ''gpx''" "localName ''metadata'' = ''metadata''"
  "localName ''name'' = ''name''" "localName ''desc'' = ''desc''" "localName ''time'' = ''time''"
  "localName ''wpt'' = ''wpt''" "localName ''trk'' = ''trk''" "localName ''trkseg'' = ''trkseg''"
  "localName ''trkpt'' = ''trkpt''"
  by (simp_all add: localName_def)

lemma trkpt_in_trkpt:
  "filter (matchesSelector ''trkpt'') (trkptNode ts p # descendants (trkptNode ts p)) =
     [trkptNode ts p]"
  by (simp add: trkptNode_def local_names)

lemma trkseg_trkpts:
  "querySelectorAll (trksegNode ts track) ''trkpt'' = map (trkptNode ts) track"
proof -
  have "concat (map (\<lambda>p. filter (matchesSelector ''trkpt'')
      (trkptNode ts p # descendants (trkptNode ts p))) track) = map (trkptNode ts) track"
    by (induction track) (simp_all add: trkpt_in_trkpt del: filter.simps)
  then show ?thesis
    by (simp add: querySelectorAll_def trksegNode_def filter_below_pairs)
qed

lemma others_in_trkseg:
  assumes "sel \<noteq> ''trkpt''"
  shows "filter (matchesSelector sel) (descendants (trksegNode ts track)) = []"
proof -
  have "filter (matchesSelector sel) (trkptNode ts p # descendants (trkptNode ts p)) = []" for p
    using assms by (auto simp: trkptNode_def local_names)
  then show ?thesis
    by (simp add: trksegNode_def filter_below_pairs)
qed

lemma tagged_in_trkseg:
  assumes "t \<noteq> ''trkpt''"
  shows "filter (hasTagName t) (descendants (trksegNode ts track)) = []"
proof -
  have "filter (hasTagName t) (trkptNode ts p # descendants (trkptNode ts p)) = []" for p
    using assms by (auto simp: trkptNode_def)
  then show ?thesis
    by (simp add: trksegNode_def filter_below_pairs)
qed

lemma trk_trksegs: "querySelectorAll (trkNode ts (i, track)) ''trkseg'' = [trksegNode ts track]"
proof -
  have "matchesSelector ''trkseg'' (trksegNode ts track)"
    by (simp add: trksegNode_def local_names)
  then show ?thesis
    by (simp add: querySelectorAll_def trkNode_def local_names others_in_trkseg)
qed

lemma trk_in_trk:
  "filter (matchesSelector ''trk'') (trkNode ts t # descendants (trkNode ts t)) = [trkNode ts t]"
proof -
  obtain i track where t: "t = (i, track)" by (cases t)
  have "\<not> matchesSelector ''trk'' (trksegNode ts track)"
    by (simp add: trksegNode_def local_names)
  then show ?thesis
    by (simp add: t trkNode_def local_names others_in_trkseg)
qed

lemma wpt_in_trk:
  "filter (hasTagName ''wpt'') (trkNode ts t # descendants (trkNode ts t)) = []"
proof -
  obtain i track where t: "t = (i, track)" by (cases t)
  have "\<not> hasTagName ''wpt'' (trksegNode ts track)"
    by (simp add: trksegNode_def)
  then show ?thesis
    by (simp add: t trkNode_def tagged_in_trkseg)
qed

lemma in_wpt:
  "filter (matchesSelector ''trk'') (wptNode ts w # descendants (wptNode ts w)) = []"
  "filter (hasTagName ''wpt'') (wptNode ts w # descendants (wptNode ts w)) = [wptNode ts w]"
  by (simp_all add: wptNode_def local_names)

lemma in_metadata:
  "filter (matchesSelector ''trk'') (metadataNode n d t # descendants (metadataNode n d t)) = []"
  "filter (hasTagName ''wpt'') (metadataNode n d t # descendants (metadataNode n d t)) = []"
  by (simp_all add: metadataNode_def local_names filter_below_textNodes)

lemma concat_singletons: "concat (map (\<lambda>x. [f x]) xs) = map f xs"
  by (induction xs) simp_all

lemma concat_map_Nil: "concat (map (\<lambda>x. []) xs) = []"
  by (induction xs) simp_all

lemma gpxTree_filter:
  assumes noText: "\<And>t. \<not> P (Text t)"
    and gpx: "\<And>as cs. \<not> P (Element ''gpx'' as cs)"
  shows "filter P (gpxTree ts now gpxData # descendants (gpxTree ts now gpxData)) =
     filter P (metadataNode (metadataName gpxData) (metadataDesc gpxData)
                 (metadataTime now gpxData) #
               descendants (metadataNode (metadataName gpxData) (metadataDesc gpxData)
                 (metadataTime now gpxData))) @
     concat (map (\<lambda>w. filter P (wptNode ts w # descendants (wptNode ts w))) (waypoints gpxData)) @
     concat (map (\<lambda>t. filter P (trkNode ts t # descendants (trkNode ts t)))
               (enumerate 0 (tracks gpxData)))"
  by (simp add: gpxTree_def filter_below_pairs noText gpx)

lemma gpxTree_trks:
  "docQuerySelectorAll (gpxTree ts now gpxData) ''trk'' =
     map (trkNode ts) (enumerate 0 (tracks gpxData))"
proof -
  have "filter (matchesSelector ''trk'')
      (gpxTree ts now gpxData # descendants (gpxTree ts now gpxData)) =
      map (trkNode ts) (enumerate 0 (tracks gpxData))"
    by (subst gpxTree_filter)
      (simp_all only: in_metadata in_wpt trk_in_trk concat_singletons matchesSelector.simps
        local_names append_Nil concat_map_Nil, simp_all)
  then show ?thesis by (simp only: docQuerySelectorAll_def)
qed

lemma gpxTree_wpts:
  "docGetElementsByTagName (gpxTree ts now gpxData) ''wpt'' =
     map (wptNode ts) (waypoints gpxData)"
proof -
  have "filter (hasTagName ''wpt'')
      (gpxTree ts now gpxData # descendants (gpxTree ts now gpxData)) =
      map (wptNode ts) (waypoints gpxData)"
    by (subst gpxTree_filter)
      (simp_all only: in_metadata in_wpt wpt_in_trk concat_singletons hasTagName.simps
        append_Nil append_Nil2 concat_map_Nil, simp_all)
  then show ?thesis by (simp only: docGetElementsByTagName_def)
qed

subsection \<open>The round trip\<close>

lemma orElse_nonempty: "s \<noteq> [] \<Longrightarrow> orElse (Some s) d = s"
  by (simp add: orElse_def)

lemma parseTrkpt_trkptNode:
  assumes "printable ts (TrackPoint.lat p)" "printable ts (TrackPoint.lon p)"
    and "TrackPoint.ele p = None" "TrackPoint.time p = None"
  shows "parseTrkpt (trkptNode ts p) = p"
proof -
  have "querySelector (trkptNode ts p) sel = None" for sel
    by (simp add: querySelector_def trkptNode_def)
  then have "parseTrkpt (trkptNode ts p) =
      \<lparr>TrackPoint.lat = TrackPoint.lat p, lon = TrackPoint.lon p, ele = None, time = None\<rparr>"
    using assms(1,2)
    by (simp add: parseTrkpt_def trkptNode_def coordAttrs_def printable_def orElse_nonempty
        parseEle_def orUndefined_def)
  with assms(3,4) show ?thesis by simp
qed

lemma parseWpt_wptNode:
  assumes "printable ts (Waypoint.lat w)" "printable ts (Waypoint.lon w)"
    and "Waypoint.ele w = None" "Waypoint.name w = None"
  shows "parseWpt (wptNode ts w) = w"
proof -
  have "getElementsByTagName (wptNode ts w) t = []" for t
    by (simp add: getElementsByTagName_def wptNode_def)
  then have "parseWpt (wptNode ts w) =
      \<lparr>Waypoint.lat = Waypoint.lat w, lon = Waypoint.lon w, ele = None, name = None\<rparr>"
    using assms(1,2)
    by (simp add: parseWpt_def wptNode_def coordAttrs_def printable_def orElse_nonempty
        parseEle_def orUndefined_def firstOf_def)
  with assms(3,4) show ?thesis by simp
qed

lemma parseTracks_gpxTree:
  assumes only: "latLonOnly gpxData"
    and coords: "\<forall>x \<in> set (coordinates gpxData). printable ts x"
  shows "parseTracks (gpxTree ts now gpxData) = filter (\<lambda>points. points \<noteq> []) (tracks gpxData)"
proof -
  have point: "map parseTrkpt (map (trkptNode ts) track) = track"
    if "track \<in> set (tracks gpxData)" for track
  proof -
    have "parseTrkpt (trkptNode ts p) = p" if "p \<in> set track" for p
      using that \<open>track \<in> set (tracks gpxData)\<close> only printable_coordinates(2) [OF coords]
      by (intro parseTrkpt_trkptNode) (auto simp: latLonOnly_def)
    then show ?thesis by (simp add: map_idI)
  qed
  have "concat (map (\<lambda>trk. map (\<lambda>trkseg. map parseTrkpt (querySelectorAll trkseg ''trkpt''))
                               (querySelectorAll trk ''trkseg''))
                    (map (trkNode ts) xs)) = map snd xs"
    if "snd ` set xs \<subseteq> set (tracks gpxData)" for xs :: "(nat \<times> TrackPoint list) list"
    using that
  proof (induction xs)
    case Nil
    show ?case by simp
  next
    case (Cons x xs)
    obtain i track where x: "x = (i, track)" by (cases x)
    with Cons.prems have "track \<in> set (tracks gpxData)" by simp
    from point [OF this] Cons show ?case
      by (simp add: x trk_trksegs trkseg_trkpts)
  qed
  moreover have "snd ` set (enumerate 0 (tracks gpxData)) \<subseteq> set (tracks gpxData)"
    using map_snd_enumerate [of 0 "tracks gpxData"] by (metis set_map subset_refl)
  ultimately
  have "concat (map (\<lambda>trk. map (\<lambda>trkseg. map parseTrkpt (querySelectorAll trkseg ''trkpt''))
                               (querySelectorAll trk ''trkseg''))
                    (map (trkNode ts) (enumerate 0 (tracks gpxData)))) = tracks gpxData"
    by (simp add: map_snd_enumerate)
  then show ?thesis
    by (simp add: parseTracks_def gpxTree_trks)
qed

lemma parseWpts_gpxTree:
  assumes only: "latLonOnly gpxData"
    and coords: "\<forall>x \<in> set (coordinates gpxData). printable ts x"
  shows "map parseWpt (docGetElementsByTagName (gpxTree ts now gpxData) ''wpt'') =
     waypoints gpxData"
proof -
  have "parseWpt (wptNode ts w) = w" if "w \<in> set (waypoints gpxData)" for w
    using that only printable_coordinates(1) [OF coords]
    by (intro parseWpt_wptNode) (auto simp: latLonOnly_def)
  then show ?thesis by (simp add: gpxTree_wpts map_idI)
qed

text \<open>
  C4, as the code has it: for a file whose points carry latitude and longitude only,
  whose tracks all have a point, whose coordinates are written as text that reads back
  as the same number, and whose metadata texts have no markup characters, parsing the
  text of the serializer gives back the tracks and the waypoints, under any file name.
\<close>

theorem gpx_round_trip:
  assumes "latLonOnly gpxData"
    and "[] \<notin> set (tracks gpxData)"
    and "\<forall>x \<in> set (coordinates gpxData). printable ts x"
    and "plainText (metadataName gpxData)" "plainText (metadataDesc gpxData)"
      "plainText (metadataTime now gpxData)"
  shows "\<exists>g. parseGPX (gpxDataToXML ts now gpxData) fileName = Inr g \<and>
           tracks g = tracks gpxData \<and> waypoints g = waypoints gpxData"
proof -
  have wf: "wfNode (gpxTree ts now gpxData)"
    by (rule wf_gpxTree) fact+
  have "parseXml (gpxDataToXML ts now gpxData) = Some (gpxTree ts now gpxData)"
    unfolding gpxDataToXML_render [OF assms(1)]
    using wf parseXml_render unfolding gpxTree_def by blast
  then have doc: "parseFromString (gpxDataToXML ts now gpxData) = gpxTree ts now gpxData"
    by (simp add: parseFromString_def)
  have "filter (\<lambda>points. points \<noteq> []) (tracks gpxData) = tracks gpxData"
    using assms(2) by (auto simp: filter_id_conv)
  then have "tracks (parseDocument (gpxTree ts now gpxData) fileName) = tracks gpxData"
    by (simp add: parseDocument_def parseTracks_gpxTree [OF assms(1,3)])
  moreover have "waypoints (parseDocument (gpxTree ts now gpxData) fileName) = waypoints gpxData"
    by (simp add: parseDocument_def parseWpts_gpxTree [OF assms(1,3)])
  ultimately show ?thesis
    by (simp add: parseGPX_def doc)
qed

lemma integerToString_values:
  "integerToString (Num 50) = ''50''" "integerToString (Num 14) = ''14''"
  "integerToString (Num 51) = ''51''" "integerToString (Num 15) = ''15''"
  by (simp_all add: integerToString_def nat_to_string.simps digit_char_def)

lemma parseFloat_values:
  "parseFloat ''50'' = Num 50" "parseFloat ''14'' = Num 14"
  "parseFloat ''51'' = Num 51" "parseFloat ''15'' = Num 15"
  unfolding parseFloat_def Let_def
  by (simp_all add: splitSign_def isWhite_def isDigit_def digitsVal_def exponentPart_def)

lemma printable_values:
  "printable integerToString (Num 50)" "printable integerToString (Num 14)"
  "printable integerToString (Num 51)" "printable integerToString (Num 15)"
  by (simp_all add: printable_def integerToString_values parseFloat_values plainAttr_def
      plainChar_def)

theorem gpx_round_trip_witness:
  "\<exists>g. parseGPX (gpxDataToXML integerToString ''2024-01-01T00:00:00.000Z'' gpxMinimal)
          ''other.gpx'' = Inr g \<and>
       tracks g = [[\<lparr>TrackPoint.lat = Num 50, lon = Num 14, ele = None, time = None\<rparr>]] \<and>
       waypoints g = [\<lparr>Waypoint.lat = Num 51, lon = Num 15, ele = None, name = None\<rparr>]"
proof -
  have "latLonOnly gpxMinimal" "[] \<notin> set (tracks gpxMinimal)"
    by (simp_all add: latLonOnly_def gpxMinimal_def)
  moreover have "\<forall>x \<in> set (coordinates gpxMinimal). printable integerToString x"
    by (simp add: coordinates_def gpxMinimal_def printable_values)
  moreover have "plainText (metadataName gpxMinimal)" "plainText (metadataDesc gpxMinimal)"
    "plainText (metadataTime ''2024-01-01T00:00:00.000Z'' gpxMinimal)"
    by (simp_all add: metadataName_def metadataDesc_def metadataTime_def gpxMinimal_def
        orElse_def plainText_def plainChar_def)
  ultimately have "\<exists>g. parseGPX (gpxDataToXML integerToString ''2024-01-01T00:00:00.000Z''
        gpxMinimal) ''other.gpx'' = Inr g \<and>
      tracks g = tracks gpxMinimal \<and> waypoints g = waypoints gpxMinimal"
    by (rule gpx_round_trip)
  then show ?thesis by (simp add: gpxMinimal_def)
qed

lemma nat_to_string_1: "nat_to_string (Suc 0) = ''1''"
  by (simp add: nat_to_string.simps digit_char_def)

lemma xml_emptyTrack:
  \<open>gpxDataToXML integerToString ''2024-01-01T00:00:00.000Z'' gpxEmptyTrack =
    ''<?xml version="1.0" encoding="UTF-8"?>'' @ nl @
    ''<gpx version="1.1" creator="GPX Merger" xmlns="http://www.topografix.com/GPX/1/1">'' @ nl @
    ''  <metadata>'' @ nl @
    ''    <name>x</name>'' @ nl @
    ''    <desc></desc>'' @ nl @
    ''    <time>2024-01-01T00:00:00.000Z</time>'' @ nl @
    ''  </metadata>'' @ nl @
    ''  <trk>'' @ nl @
    ''    <name>Track 1</name>'' @ nl @
    ''    <trkseg>'' @ nl @
    ''    </trkseg>'' @ nl @
    ''  </trk>'' @ nl @
    ''</gpx>''\<close>
  by (simp add: gpxDataToXML_def gpxEmptyTrack_def trkXML_def orElse_def nat_to_string_1)

text \<open>
  A track without a point is written as an empty track segment, which the parser drops:
  the file comes back without the track.
\<close>

theorem gpx_round_trip_counterexample:
  \<open>latLonOnly gpxEmptyTrack \<and>
   tracks gpxEmptyTrack = [[]] \<and>
   parseGPX (gpxDataToXML integerToString ''2024-01-01T00:00:00.000Z'' gpxEmptyTrack) ''f.gpx'' =
     Inr \<lparr>GPXData.name = ''x'', tracks = [], waypoints = [],
          metadata = Some \<lparr>Metadata.name = Some ''x'', desc = None, author = None,
                            time = Some ''2024-01-01T00:00:00.000Z''\<rparr>\<rparr>\<close>
proof -
  have \<open>parseGPX (gpxDataToXML integerToString ''2024-01-01T00:00:00.000Z'' gpxEmptyTrack)
      ''f.gpx'' =
     Inr \<lparr>GPXData.name = ''x'', tracks = [], waypoints = [],
          metadata = Some \<lparr>Metadata.name = Some ''x'', desc = None, author = None,
                            time = Some ''2024-01-01T00:00:00.000Z''\<rparr>\<rparr>\<close>
    unfolding xml_emptyTrack by code_simp
  then show ?thesis by (simp add: latLonOnly_def gpxEmptyTrack_def)
qed

end
